theory Spec2Isabelle
  imports Complex_Main
begin

section \<open>Python values, exceptions and library calls\<close>

text \<open>
  The program is a single Python module, \<^verbatim>\<open>main.py\<close>. Its playback core is the class
  \<^verbatim>\<open>TrackPlayer\<close> (the engine with its real-time callback), the thin wrapper
  \<^verbatim>\<open>Track\<close>, and the methods \<^verbatim>\<open>play_track\<close> and \<^verbatim>\<open>on_track_finished\<close> of the window
  class \<^verbatim>\<open>MusicPlayer\<close> (the playlist sequencer).

  Conventions of the embedding:
  \<^item> Python integers are \<open>int\<close>; counts that the libraries keep non-negative (frame
    positions, lengths, block sizes) are \<open>nat\<close>.
  \<^item> Floating-point numbers (samples, the volume, seconds) are idealised as \<open>real\<close>:
    rounding is outside the model. Overflow is not: a product or quotient that IEEE
    double arithmetic rounds to infinity is recognised by \<open>float_overflows\<close>, and the
    exception that follows from it is a branch of the model.
  \<^item> A Python exception is a value of \<open>py_error\<close>. A method that mutates its object
    and may raise returns a \<open>result\<close>: \<open>Return s\<close> is a normal return in state
    \<open>s\<close>, \<open>Raise e s\<close> is exception \<open>e\<close> leaving state \<open>s\<close> behind (mutations made
    before the raise persist, as in Python).
  \<^item> The lock of \<^verbatim>\<open>TrackPlayer\<close> is not modelled: every method runs to completion before
    the next one starts. A started thread is not run where it is started: it is recorded
    as pending, and a separate step runs its body later.
\<close>

datatype py_error =
  ValueError | ZeroDivisionError | IndexError | OverflowError | LibsndfileError | CallbackStop

datatype 's result = Return 's | Raise py_error 's

text \<open>
  A double operation whose exact result has magnitude \<open>2^1024 - 2^970\<close> or more rounds
  to infinity (the largest finite double is \<open>2^1024 - 2^971\<close>, and the midpoint
  rounds away from it). Python's true division of integers raises \<^verbatim>\<open>OverflowError\<close>
  at such a quotient, and \<^verbatim>\<open>int()\<close> raises it on an infinite float.
\<close>

definition float_overflows :: "real \<Rightarrow> bool" where
  "float_overflows x = (2 ^ 1024 - 2 ^ 970 \<le> \<bar>x\<bar>)"

text \<open>\<^verbatim>\<open>int(x)\<close> on a finite float truncates towards zero.\<close>

definition py_int :: "real \<Rightarrow> int" where
  "py_int x = (if 0 \<le> x then \<lfloor>x\<rfloor> else \<lceil>x\<rceil>)"

text \<open>\<^verbatim>\<open>np.clip(a, a_min, a_max)\<close> is \<^verbatim>\<open>minimum(a_max, maximum(a, a_min))\<close>.\<close>

definition np_clip :: "'a::linorder \<Rightarrow> 'a \<Rightarrow> 'a \<Rightarrow> 'a" where
  "np_clip a a_min a_max = min a_max (max a a_min)"

text \<open>\<^verbatim>\<open>xs.index(x)\<close>: the first position of \<open>x\<close>, or \<^verbatim>\<open>ValueError\<close>.\<close>

fun py_index :: "'a list \<Rightarrow> 'a \<Rightarrow> py_error + int" where
  "py_index [] x = Inl ValueError"
| "py_index (y # ys) x =
     (if y = x then Inr 0
      else (case py_index ys x of Inl e \<Rightarrow> Inl e | Inr i \<Rightarrow> Inr (i + 1)))"

text \<open>\<^verbatim>\<open>a % b\<close> on integers: floor modulus, \<^verbatim>\<open>ZeroDivisionError\<close> when \<open>b = 0\<close>.\<close>

definition py_mod :: "int \<Rightarrow> int \<Rightarrow> py_error + int" where
  "py_mod a b = (if b = 0 then Inl ZeroDivisionError else Inr (a mod b))"

text \<open>
  \<^verbatim>\<open>xs[i]\<close> on a list: an index from \<open>-len\<close> up to \<open>-1\<close> addresses the list from its
  end, and any index outside \<open>[-len, len)\<close> is an \<^verbatim>\<open>IndexError\<close>.
\<close>

definition py_getitem :: "'a list \<Rightarrow> int \<Rightarrow> py_error + 'a" where
  "py_getitem xs i =
     (if 0 \<le> i \<and> i < int (length xs) then Inr (xs ! nat i)
      else if i < 0 \<and> - int (length xs) \<le> i then Inr (xs ! nat (int (length xs) + i))
      else Inl IndexError)"

section \<open>The decoded source reader (\<^verbatim>\<open>soundfile.SoundFile\<close>)\<close>

text \<open>
  The reader is the library object the program reads frames from. A frame is one sample
  per channel. The model keeps the decoded frames, the read position and the library's
  \<^verbatim>\<open>closed\<close> attribute. The operations are those the program calls: \<^verbatim>\<open>len\<close>,
  \<^verbatim>\<open>read\<close>, \<^verbatim>\<open>seek\<close> and \<^verbatim>\<open>tell\<close>, on an open reader (the program opens the reader of a
  \<^verbatim>\<open>TrackPlayer\<close> in \<^verbatim>\<open>__init__\<close> and has no call that closes it).
\<close>

type_synonym frame = "real list"

type_synonym path = string

record audio_file =
  af_frames :: "frame list"
  af_samplerate :: int
  af_channels :: nat

record sound_file =
  sf_data :: "frame list"
  sf_samplerate :: int
  sf_channels :: nat
  sf_pos :: nat
  sf_closed :: bool

text \<open>
  \<^verbatim>\<open>sf.SoundFile(str(path))\<close>: the directory content is a parameter, a partial map from
  paths to decodable audio; a path outside it cannot be opened.
\<close>

definition SoundFile_open :: "(path \<rightharpoonup> audio_file) \<Rightarrow> path \<Rightarrow> py_error + sound_file" where
  "SoundFile_open fs p =
     (case fs p of
        None \<Rightarrow> Inl LibsndfileError
      | Some a \<Rightarrow>
          Inr \<lparr>sf_data = af_frames a, sf_samplerate = af_samplerate a,
               sf_channels = af_channels a, sf_pos = 0, sf_closed = False\<rparr>)"

definition sf_len :: "sound_file \<Rightarrow> nat" where
  "sf_len f = length (sf_data f)"

definition sf_tell :: "sound_file \<Rightarrow> nat" where
  "sf_tell f = sf_pos f"

text \<open>\<^verbatim>\<open>read(frames)\<close>: up to \<open>frames\<close> frames from the position, which it advances.\<close>

definition sf_read :: "sound_file \<Rightarrow> nat \<Rightarrow> frame list \<times> sound_file" where
  "sf_read f frames =
     (let data = take frames (drop (sf_pos f) (sf_data f))
      in (data, f\<lparr>sf_pos := sf_pos f + length data\<rparr>))"

text \<open>\<^verbatim>\<open>seek(frame)\<close>: the library refuses a target outside \<open>[0, len]\<close>.\<close>

definition sf_seek :: "sound_file \<Rightarrow> int \<Rightarrow> py_error + sound_file" where
  "sf_seek f fr =
     (if fr < 0 \<or> int (sf_len f) < fr then Inl LibsndfileError
      else Inr (f\<lparr>sf_pos := nat fr\<rparr>))"

section \<open>The playback engine (\<^verbatim>\<open>TrackPlayer\<close>)\<close>

text \<open>
  The output stream of \<^verbatim>\<open>sounddevice\<close>: its parameters and whether the audio subsystem
  is still invoking the callback. The calls a method makes on the stream are returned
  beside the new state, in the order they are made.
\<close>

record output_stream =
  st_samplerate :: int
  st_channels :: nat
  st_blocksize :: nat
  st_active :: bool

datatype stream_call = Stream_start | Stream_stop | Stream_close

text \<open>
  The only completion callback the program registers is the closure \<^verbatim>\<open>on_finished\<close> of
  \<^verbatim>\<open>play_track\<close>, which calls \<^verbatim>\<open>self.on_track_finished(path)\<close>.
\<close>

datatype callable = On_finished path

record track_player =
  sf :: sound_file
  samplerate :: int
  channels :: nat
  stream :: "output_stream option"
  volume :: real
  paused :: bool
  current_frame :: nat
  finished_callback :: "callable option"

definition TrackPlayer_init :: "(path \<rightharpoonup> audio_file) \<Rightarrow> path \<Rightarrow> py_error + track_player" where
  "TrackPlayer_init fs p =
     (case SoundFile_open fs p of
        Inl e \<Rightarrow> Inl e
      | Inr f \<Rightarrow>
          Inr \<lparr>sf = f, samplerate = sf_samplerate f, channels = sf_channels f,
               stream = None, volume = 1, paused = False, current_frame = 0,
               finished_callback = None\<rparr>)"

text \<open>
  What one invocation of the callback leaves behind: the engine, the output block it
  wrote (\<open>frames\<close> rows, as the audio subsystem hands it over), and the threads it started.
  A started thread is recorded, not run: the callback has no access to the sequencer.
\<close>

record callback_state =
  cb_player :: track_player
  cb_outdata :: "frame list"
  cb_spawned :: "callable list"

definition scale :: "real \<Rightarrow> frame list \<Rightarrow> frame list" where
  "scale v data = map (map (\<lambda>x. x * v)) data"

definition silence :: "nat \<Rightarrow> nat \<Rightarrow> frame list" where
  "silence n ch = replicate n (replicate ch 0)"

text \<open>
  \<^verbatim>\<open>callback(outdata, frames, time, status)\<close>. Printing a non-empty \<^verbatim>\<open>status\<close> touches
  neither the engine nor the block and is left out, as is the unused \<^verbatim>\<open>time\<close>.
\<close>

definition callback :: "track_player \<Rightarrow> nat \<Rightarrow> callback_state result" where
  "callback p frames =
     (if paused p then
        Return \<lparr>cb_player = p, cb_outdata = silence frames (channels p), cb_spawned = []\<rparr>
      else
        (let (data, f) = sf_read (sf p) frames;
             p1 = p\<lparr>sf := f\<rparr>
         in if length data < frames then
              Raise CallbackStop
                \<lparr>cb_player = p1,
                 cb_outdata = scale (volume p) data @ silence (frames - length data) (channels p),
                 cb_spawned = (case finished_callback p of None \<Rightarrow> [] | Some cb \<Rightarrow> [cb])\<rparr>
            else
              Return
                \<lparr>cb_player = p1\<lparr>current_frame := sf_tell f\<rparr>,
                 cb_outdata = scale (volume p) data,
                 cb_spawned = []\<rparr>))"

definition play :: "track_player \<Rightarrow> track_player \<times> stream_call list" where
  "play p =
     (p\<lparr>stream := Some \<lparr>st_samplerate = samplerate p, st_channels = channels p,
                         st_blocksize = 2048, st_active = True\<rparr>\<rparr>,
      [Stream_start])"

definition stop :: "track_player \<Rightarrow> (track_player \<times> stream_call list) result" where
  "stop p =
     (let (p1, calls) =
            (case stream p of
               None \<Rightarrow> (p, [])
             | Some st \<Rightarrow> (p\<lparr>stream := None\<rparr>, [Stream_stop, Stream_close]))
      in case sf_seek (sf p1) 0 of
           Inl e \<Rightarrow> Raise e (p1, calls)
         | Inr f \<Rightarrow> Return (p1\<lparr>sf := f, current_frame := 0\<rparr>, calls))"

definition pause :: "track_player \<Rightarrow> track_player" where
  "pause p = p\<lparr>paused := True\<rparr>"

definition resume :: "track_player \<Rightarrow> track_player" where
  "resume p = p\<lparr>paused := False\<rparr>"

text \<open>
  \<^verbatim>\<open>set_volume(value)\<close>: the quotient \<^verbatim>\<open>value / 100\<close> is computed first and raises when it
  is too large for a float; the volume is then left as it was.
\<close>

definition set_volume :: "track_player \<Rightarrow> int \<Rightarrow> track_player result" where
  "set_volume p v =
     (if float_overflows (real_of_int v / 100) then Raise OverflowError p
      else Return (p\<lparr>volume := np_clip (real_of_int v / 100) 0 1\<rparr>))"

text \<open>
  \<^verbatim>\<open>seek(seconds)\<close>: when the product \<^verbatim>\<open>seconds * self.samplerate\<close> overflows to infinity,
  \<^verbatim>\<open>int()\<close> raises before anything is clamped or moved.
\<close>

definition seek :: "track_player \<Rightarrow> real \<Rightarrow> track_player result" where
  "seek p seconds =
     (if float_overflows (seconds * real_of_int (samplerate p)) then Raise OverflowError p
      else
        (let fr = py_int (seconds * real_of_int (samplerate p));
             fr = np_clip fr 0 (int (sf_len (sf p)))
         in case sf_seek (sf p) fr of
              Inl e \<Rightarrow> Raise e p
            | Inr f \<Rightarrow> Return (p\<lparr>sf := f, current_frame := sf_tell f\<rparr>)))"

text \<open>
  The audio subsystem (\<^verbatim>\<open>sounddevice\<close>) drives the callback: while the stream exists and
  is active it asks for one block of \<open>blocksize\<close> frames at a time, and once the callback
  raises (\<^verbatim>\<open>CallbackStop\<close> included) it marks the stream inactive and invokes the
  callback no more. A tick on a missing or inactive stream does nothing.
\<close>

definition stream_tick :: "track_player \<Rightarrow> callback_state" where
  "stream_tick p =
     (case stream p of
        None \<Rightarrow> \<lparr>cb_player = p, cb_outdata = [], cb_spawned = []\<rparr>
      | Some st \<Rightarrow>
          if \<not> st_active st then \<lparr>cb_player = p, cb_outdata = [], cb_spawned = []\<rparr>
          else
            (case callback p (st_blocksize st) of
               Return r \<Rightarrow> r
             | Raise e r \<Rightarrow>
                 r\<lparr>cb_player := (cb_player r)\<lparr>stream := Some (st\<lparr>st_active := False\<rparr>)\<rparr>\<rparr>))"

text \<open>
  A history of one started engine: callback ticks of the audio subsystem interleaved
  with the control operations. The second component collects the completion
  notifications dispatched so far.
\<close>

datatype event = Tick | Pause | Resume | Set_volume int | Seek real

fun step :: "event \<Rightarrow> track_player \<times> callable list \<Rightarrow> track_player \<times> callable list" where
  "step Tick (p, ns) = (let r = stream_tick p in (cb_player r, ns @ cb_spawned r))"
| "step Pause (p, ns) = (pause p, ns)"
| "step Resume (p, ns) = (resume p, ns)"
| "step (Set_volume v) (p, ns) =
     (case set_volume p v of Return q \<Rightarrow> (q, ns) | Raise e q \<Rightarrow> (q, ns))"
| "step (Seek s) (p, ns) = (case seek p s of Return q \<Rightarrow> (q, ns) | Raise e q \<Rightarrow> (q, ns))"

definition run :: "event list \<Rightarrow> track_player \<times> callable list \<Rightarrow> track_player \<times> callable list" where
  "run es = fold step es"

section \<open>A loaded track (\<^verbatim>\<open>Track\<close>)\<close>

record track =
  path :: path
  player :: track_player
  duration_seconds :: real

text \<open>
  \<^verbatim>\<open>Track(path)\<close> opens the file twice: once for the engine, once to compute the
  duration \<^verbatim>\<open>len(f) / f.samplerate\<close>.
\<close>

definition Track_init :: "(path \<rightharpoonup> audio_file) \<Rightarrow> path \<Rightarrow> py_error + track" where
  "Track_init fs p =
     (case TrackPlayer_init fs p of
        Inl e \<Rightarrow> Inl e
      | Inr pl \<Rightarrow>
          (case SoundFile_open fs p of
             Inl e \<Rightarrow> Inl e
           | Inr f \<Rightarrow>
               if sf_samplerate f = 0 then Inl ZeroDivisionError
               else Inr \<lparr>path = p, player = pl,
                         duration_seconds = real (sf_len f) / real_of_int (sf_samplerate f)\<rparr>))"

definition Track_play :: "track \<Rightarrow> track \<times> stream_call list" where
  "Track_play t = (let (pl, calls) = play (player t) in (t\<lparr>player := pl\<rparr>, calls))"

definition Track_stop :: "track \<Rightarrow> (track \<times> stream_call list) result" where
  "Track_stop t =
     (case stop (player t) of
        Return (pl, calls) \<Rightarrow> Return (t\<lparr>player := pl\<rparr>, calls)
      | Raise e (pl, calls) \<Rightarrow> Raise e (t\<lparr>player := pl\<rparr>, calls))"

definition Track_pause :: "track \<Rightarrow> track" where
  "Track_pause t = t\<lparr>player := pause (player t)\<rparr>"

definition Track_resume :: "track \<Rightarrow> track" where
  "Track_resume t = t\<lparr>player := resume (player t)\<rparr>"

definition Track_set_volume :: "track \<Rightarrow> int \<Rightarrow> track result" where
  "Track_set_volume t v =
     (case set_volume (player t) v of
        Return pl \<Rightarrow> Return (t\<lparr>player := pl\<rparr>)
      | Raise e pl \<Rightarrow> Raise e (t\<lparr>player := pl\<rparr>))"

definition Track_seek :: "track \<Rightarrow> real \<Rightarrow> track result" where
  "Track_seek t seconds =
     (case seek (player t) seconds of
        Return pl \<Rightarrow> Return (t\<lparr>player := pl\<rparr>)
      | Raise e pl \<Rightarrow> Raise e (t\<lparr>player := pl\<rparr>))"

text \<open>\<^verbatim>\<open>current_frame / samplerate\<close>: true division, which raises on a zero divisor.\<close>

definition get_position :: "track \<Rightarrow> py_error + real" where
  "get_position t =
     (if samplerate (player t) = 0 then Inl ZeroDivisionError
      else Inr (real (current_frame (player t)) / real_of_int (samplerate (player t))))"

section \<open>The playlist sequencer (\<^verbatim>\<open>MusicPlayer\<close>)\<close>

text \<open>
  Of the window object the model keeps the fields that \<^verbatim>\<open>play_track\<close> and
  \<^verbatim>\<open>on_track_finished\<close> read or write: the playback fields, the widgets they set (the
  two dictionaries keyed by path are association lists in insertion order), and two
  traces of what leaves the process: the lines printed, and the calls made on output
  streams, each tagged with the path of the track that owns the stream.

  A \<^verbatim>\<open>Track\<close> is a mutable object that the window and the thread started for its
  \<^verbatim>\<open>play\<close> both refer to, so the tracks live in a store: \<open>objects\<close> holds every track
  created so far, the address of a track is its index there, and \<open>current_track\<close> is an
  address. \<open>threads\<close> holds the addresses of the tracks whose thread
  \<^verbatim>\<open>Thread(target=track.play)\<close> has been started and has not run yet. The only addresses
  ever stored are those returned by an allocation, which are below \<open>length objects\<close>.
\<close>

datatype glyph = Play_glyph | Pause_glyph

datatype row_style = Plain | Highlighted

datatype console_line = Failed_to_play path py_error

record music_player =
  objects :: "track list"
  current_track :: "nat option"
  threads :: "nat list"
  current_volume :: int
  user_seeking :: bool
  loop_mode :: string
  track_list :: "path list"
  track_rows :: "(path \<times> row_style) list"
  play_buttons :: "(path \<times> glyph) list"
  progress_value :: int
  progress_enabled :: bool
  time_label :: string
  printed :: "console_line list"
  audio_calls :: "(path \<times> stream_call) list"

definition update_play_buttons :: "music_player \<Rightarrow> path option \<Rightarrow> music_player" where
  "update_play_buttons s active_path =
     s\<lparr>play_buttons :=
         map (\<lambda>(p, btn). (p, if Some p = active_path then Pause_glyph else Play_glyph))
           (play_buttons s)\<rparr>"

definition highlight_track :: "music_player \<Rightarrow> path \<Rightarrow> music_player" where
  "highlight_track s p =
     (let rows = map (\<lambda>(q, w). (q, Plain)) (track_rows s);
          rows = (if p \<in> fst ` set rows
                  then map (\<lambda>(q, w). (q, if q = p then Highlighted else w)) rows
                  else rows)
      in update_play_buttons (s\<lparr>track_rows := rows\<rparr>) (Some p))"


text \<open>
  \<^verbatim>\<open>play_track(path)\<close>. The stop of the previous track stands before the \<^verbatim>\<open>try\<close>, so an
  exception there would leave the method; everything after it is inside the \<^verbatim>\<open>try\<close>,
  whose handler prints one line. \<^verbatim>\<open>Thread(target=track.play).start()\<close> only records the
  new track's address as a pending thread: \<^verbatim>\<open>track.play\<close> has not run when
  \<^verbatim>\<open>play_track\<close> returns, and the new track has no stream yet.
\<close>

definition play_track :: "(path \<rightharpoonup> audio_file) \<Rightarrow> music_player \<Rightarrow> path \<Rightarrow> music_player result" where
  "play_track fs s p =
     (case (case current_track s of
              None \<Rightarrow> Return s
            | Some a \<Rightarrow>
                (case Track_stop (objects s ! a) of
                   Raise e (t', calls) \<Rightarrow>
                     Raise e (s\<lparr>objects := (objects s)[a := t'],
                                audio_calls :=
                                  audio_calls s @ map (Pair (path (objects s ! a))) calls\<rparr>)
                 | Return (t', calls) \<Rightarrow>
                     Return (s\<lparr>objects := (objects s)[a := t'],
                               current_track := None, progress_value := 0,
                               time_label := ''00:00 / 00:00'',
                               audio_calls :=
                                 audio_calls s @ map (Pair (path (objects s ! a))) calls\<rparr>))) of
        Raise e s1 \<Rightarrow> Raise e s1
      | Return s1 \<Rightarrow>
          (case Track_init fs p of
             Inl e \<Rightarrow> Return (s1\<lparr>printed := printed s1 @ [Failed_to_play p e]\<rparr>)
           | Inr t0 \<Rightarrow>
               (case Track_set_volume t0 (current_volume s1) of
                  Raise e t1 \<Rightarrow> Return (s1\<lparr>printed := printed s1 @ [Failed_to_play p e]\<rparr>)
                | Return t1 \<Rightarrow>
                    (let t2 = t1\<lparr>player :=
                                  (player t1)\<lparr>finished_callback := Some (On_finished p)\<rparr>\<rparr>;
                         a = length (objects s1);
                         s2 = s1\<lparr>objects := objects s1 @ [t2],
                                 threads := threads s1 @ [a],
                                 current_track := Some a, progress_enabled := True\<rparr>
                     in Return (highlight_track s2 p)))))"

text \<open>
  The body of the thread started for the track at address \<open>a\<close>, run at some later
  moment chosen by the scheduler: \<^verbatim>\<open>track.play()\<close> on that object, whether or not it is
  still the window's current track. Running a thread that is not pending does nothing.
\<close>

definition run_play_thread :: "nat \<Rightarrow> music_player \<Rightarrow> music_player" where
  "run_play_thread a s =
     (if a \<in> set (threads s) \<and> a < length (objects s) then
        (let (t', calls) = Track_play (objects s ! a)
         in s\<lparr>objects := (objects s)[a := t'],
              threads := remove1 a (threads s),
              audio_calls := audio_calls s @ map (Pair (path (objects s ! a))) calls\<rparr>)
      else s)"

text \<open>
  \<^verbatim>\<open>on_track_finished(path)\<close>. In the \<^verbatim>\<open>"list"\<close> branch the whole body, the call of
  \<^verbatim>\<open>play_track\<close> included, is inside \<^verbatim>\<open>try ... except ValueError: pass\<close>.
\<close>

definition except_ValueError :: "py_error \<Rightarrow> music_player \<Rightarrow> music_player result" where
  "except_ValueError e s = (if e = ValueError then Return s else Raise e s)"

definition on_track_finished :: "(path \<rightharpoonup> audio_file) \<Rightarrow> music_player \<Rightarrow> path \<Rightarrow> music_player result" where
  "on_track_finished fs s p =
     (if loop_mode s = ''song'' then play_track fs s p
      else if loop_mode s = ''list'' then
        (case py_index (track_list s) p of
           Inl e \<Rightarrow> except_ValueError e s
         | Inr idx \<Rightarrow>
             (case py_mod (idx + 1) (int (length (track_list s))) of
                Inl e \<Rightarrow> except_ValueError e s
              | Inr next_idx \<Rightarrow>
                  (case py_getitem (track_list s) next_idx of
                     Inl e \<Rightarrow> except_ValueError e s
                   | Inr q \<Rightarrow>
                       (case play_track fs s q of
                          Return s' \<Rightarrow> Return s'
                        | Raise e s' \<Rightarrow> except_ValueError e s'))))
      else
        Return (update_play_buttons
                  (s\<lparr>current_track := None, progress_value := 0,
                     time_label := ''00:00 / 00:00''\<rparr>) None))"

section \<open>Notions used to state the properties\<close>

text \<open>The state a call leaves behind, whether it returned or raised.\<close>

fun state_of :: "'s result \<Rightarrow> 's" where
  "state_of (Return s) = s"
| "state_of (Raise e s) = s"

text \<open>
  The engine after successive invocations of the callback, one per requested block size,
  and the engine after \<^verbatim>\<open>pause()\<close>, such invocations, and \<^verbatim>\<open>resume()\<close>.
\<close>

definition callbacks :: "nat list \<Rightarrow> track_player \<Rightarrow> track_player" where
  "callbacks frs p = fold (\<lambda>fr q. cb_player (state_of (callback q fr))) frs p"

definition paused_interval :: "nat list \<Rightarrow> track_player \<Rightarrow> track_player" where
  "paused_interval frs p = resume (callbacks frs (pause p))"

text \<open>
  The bookkeeping of completion notifications along a history of an engine that has the
  callback \<open>cb\<close> registered and a stream: none dispatched while the stream is active,
  exactly the one for \<open>cb\<close> once the stream has finished.
\<close>

definition notified :: "callable \<Rightarrow> track_player \<times> callable list \<Rightarrow> bool" where
  "notified cb c =
     (finished_callback (fst c) = Some cb \<and>
      (case stream (fst c) of
         None \<Rightarrow> False
       | Some st \<Rightarrow> snd c = (if st_active st then [] else [cb])))"

text \<open>
  The track the window currently refers to, and the engines whose output stream exists
  and is active, among all the tracks created so far.
\<close>

definition current_object :: "music_player \<Rightarrow> track option" where
  "current_object s = map_option (\<lambda>a. objects s ! a) (current_track s)"

definition engine_running :: "track \<Rightarrow> bool" where
  "engine_running t = (case stream (player t) of None \<Rightarrow> False | Some st \<Rightarrow> st_active st)"

definition running_engines :: "music_player \<Rightarrow> path list" where
  "running_engines s = map path (filter engine_running (objects s))"

section \<open>Concrete inputs\<close>

text \<open>
  A three-frame mono file at 2 frames per second, a directory holding it under the
  names \<open>A\<close>, \<open>B\<close> and \<open>C\<close>, an engine freshly opened on it with a started stream
  and a registered completion callback, a track around that engine, and a window in
  loop mode \<^verbatim>\<open>"list"\<close> that has nothing loaded.
\<close>

definition demo_audio :: audio_file where
  "demo_audio = \<lparr>af_frames = [[1 / 2], [1 / 4], [- 1 / 2]], af_samplerate = 2, af_channels = 1\<rparr>"

definition demo_fs :: "path \<rightharpoonup> audio_file" where
  "demo_fs = [''A'' \<mapsto> demo_audio, ''B'' \<mapsto> demo_audio, ''C'' \<mapsto> demo_audio]"

definition demo_player :: track_player where
  "demo_player =
     \<lparr>sf = \<lparr>sf_data = af_frames demo_audio, sf_samplerate = 2, sf_channels = 1,
            sf_pos = 0, sf_closed = False\<rparr>,
      samplerate = 2, channels = 1,
      stream = Some \<lparr>st_samplerate = 2, st_channels = 1, st_blocksize = 2048, st_active = True\<rparr>,
      volume = 1 / 2, paused = False, current_frame = 0,
      finished_callback = Some (On_finished ''A'')\<rparr>"

definition demo_window :: "path list \<Rightarrow> music_player" where
  "demo_window ps =
     \<lparr>objects = [], current_track = None, threads = [],
      current_volume = 100, user_seeking = False,
      loop_mode = ''list'', track_list = ps,
      track_rows = map (\<lambda>p. (p, Plain)) ps, play_buttons = map (\<lambda>p. (p, Play_glyph)) ps,
      progress_value = 0, progress_enabled = False, time_label = ''00:00 / 00:00'',
      printed = [], audio_calls = []\<rparr>"

definition demo_track :: track where
  "demo_track = \<lparr>path = ''A'', player = demo_player, duration_seconds = 3 / 2\<rparr>"


definition demo_playing :: "path \<Rightarrow> music_player" where
  "demo_playing p =
     run_play_thread 0 (state_of (play_track demo_fs (demo_window [''A'', ''B'', ''C'']) p))"

text \<open>
  The demo window after \<open>A\<close> was started, then \<open>B\<close> before the thread of \<open>A\<close> had
  run, and then both pending threads have run, that of \<open>A\<close> first.
\<close>

definition demo_double_start :: music_player where
  "demo_double_start =
     run_play_thread 1 (run_play_thread 0
       (state_of (play_track demo_fs
          (state_of (play_track demo_fs (demo_window [''A'', ''B'', ''C'']) ''A'')) ''B'')))"

section \<open>The real-time callback\<close>

subsection \<open>Paused invocations\<close>

lemma callback_paused:
  "paused p \<Longrightarrow> callback p frames =
     Return \<lparr>cb_player = p, cb_outdata = silence frames (channels p), cb_spawned = []\<rparr>"
  by (simp add: callback_def)

lemma callbacks_paused: "paused p \<Longrightarrow> callbacks frs p = p"
  by (induction frs) (simp_all add: callbacks_def callback_paused)

lemma paused_interval_resume: "paused_interval frs p = resume p"
  by (simp add: paused_interval_def callbacks_paused pause_def resume_def)

lemma fold_paused_interval:
  "fold paused_interval cycles p = (if cycles = [] then p else resume p)"
proof (induction cycles arbitrary: p)
  case Nil
  show ?case by simp
next
  case (Cons c cs)
  have "resume (resume p) = resume p" by (simp add: resume_def)
  with Cons show ?case by (simp add: paused_interval_resume)
qed

text \<open>
  Claim C3. When the paused flag is set (an engine with the flag set is \<open>pause p\<close> of
  itself), an invocation of the callback fills the whole block with silence, that is
  \<open>frames\<close> rows of one zero per channel, starts no thread and returns with the engine
  unchanged, so neither the reader nor the read cursor moves; a tick of the audio
  subsystem does the same.
  Hence any number of invocations between \<^verbatim>\<open>pause()\<close> and \<^verbatim>\<open>resume()\<close> leaves the
  engine as it was, and after any number of such pause/resume intervals the reader (its
  position included) and the read cursor are exactly those before the first pause.
\<close>

theorem paused_callback_is_silent:
  "callback (pause p) frames =
     Return \<lparr>cb_player = pause p, cb_outdata = replicate frames (replicate (channels p) 0),
             cb_spawned = []\<rparr> \<and>
   length (cb_outdata (state_of (callback (pause p) frames))) = frames \<and>
   (\<forall>row \<in> set (cb_outdata (state_of (callback (pause p) frames))).
      length row = channels p \<and> (\<forall>x \<in> set row. x = 0)) \<and>
   cb_player (stream_tick (pause p)) = pause p \<and>
   callbacks frs (pause p) = pause p \<and>
   sf (fold paused_interval cycles p) = sf p \<and>
   current_frame (fold paused_interval cycles p) = current_frame p \<and>
   resume (callbacks frs (pause p)) = p\<lparr>paused := False\<rparr>"
proof -
  have a: "paused (pause p)" by (simp add: pause_def)
  have b: "channels (pause p) = channels p" by (simp add: pause_def)
  have 1: "callback (pause p) frames =
     Return \<lparr>cb_player = pause p, cb_outdata = replicate frames (replicate (channels p) 0),
             cb_spawned = []\<rparr>"
    using callback_paused [OF a, of frames] b by (simp add: silence_def)
  have 0: "length (cb_outdata (state_of (callback (pause p) frames))) = frames \<and>
   (\<forall>row \<in> set (cb_outdata (state_of (callback (pause p) frames))).
      length row = channels p \<and> (\<forall>x \<in> set row. x = 0))"
    unfolding 1 by simp
  have 2: "cb_player (stream_tick (pause p)) = pause p"
    by (simp add: stream_tick_def callback_paused [OF a] split: option.splits)
  have 3: "callbacks frs (pause p) = pause p" using a by (rule callbacks_paused)
  have 4: "sf (fold paused_interval cycles p) = sf p"
    by (simp add: fold_paused_interval resume_def)
  have 5: "current_frame (fold paused_interval cycles p) = current_frame p"
    by (simp add: fold_paused_interval resume_def)
  have 6: "resume (callbacks frs (pause p)) = p\<lparr>paused := False\<rparr>"
    unfolding 3 by (simp add: pause_def resume_def)
  from 0 1 2 3 4 5 6 show ?thesis by blast
qed

text \<open>
  An instance: the demo engine, paused, asked for a block of three frames, writes three
  rows of one zero and stays where it is.
\<close>

theorem paused_callback_is_silent_witness:
  "callback (pause demo_player) 3 =
     Return \<lparr>cb_player = pause demo_player, cb_outdata = [[0], [0], [0]], cb_spawned = []\<rparr> \<and>
   sf_tell (sf (resume (callbacks [3, 3] (pause demo_player)))) = 0 \<and>
   current_frame (resume (callbacks [3, 3] (pause demo_player))) = 0"
proof -
  have c: "channels demo_player = 1" by (simp add: demo_player_def)
  have r: "replicate 3 (replicate (channels demo_player) (0::real)) = [[0], [0], [0]]"
    by (simp add: c numeral_3_eq_3)
  note t = paused_callback_is_silent [of demo_player 3 "[3, 3]" "[]"]
  from t have 1: "callback (pause demo_player) 3 =
     Return \<lparr>cb_player = pause demo_player,
             cb_outdata = replicate 3 (replicate (channels demo_player) 0), cb_spawned = []\<rparr>"
    by (rule conjunct1)
  from t have 2: "resume (callbacks [3, 3] (pause demo_player)) = demo_player\<lparr>paused := False\<rparr>"
    by blast
  have 3: "sf_tell (sf (demo_player\<lparr>paused := False\<rparr>)) = 0 \<and>
           current_frame (demo_player\<lparr>paused := False\<rparr>) = 0"
    by (simp add: demo_player_def sf_tell_def)
  from 1 2 3 r show ?thesis by simp
qed

subsection \<open>End of stream\<close>

lemma seek_frame:
  "(\<exists>f. seek p s = Return (p\<lparr>sf := f, current_frame := sf_tell f\<rparr>)) \<or>
   (\<exists>e. seek p s = Raise e p)"
  by (auto simp: seek_def sf_seek_def Let_def)

lemma set_volume_cases:
  "(\<exists>x. set_volume p v = Return (p\<lparr>volume := x\<rparr>)) \<or> set_volume p v = Raise OverflowError p"
  by (auto simp: set_volume_def)

lemma step_notified: "notified cb c \<Longrightarrow> notified cb (step e c)"
proof (cases c)
  case (Pair p ns)
  assume n: "notified cb c"
  show ?thesis
  proof (cases e)
    case Tick
    with n Pair show ?thesis
      by (auto simp: notified_def stream_tick_def callback_def Let_def
          split: option.splits prod.splits if_splits)
  next
    case (Seek s)
    from seek_frame [of p s] n Pair Seek show ?thesis
      by (auto simp: notified_def split: option.splits)
  next
    case (Set_volume v)
    from set_volume_cases [of p v] n Pair Set_volume show ?thesis
      by (auto simp: notified_def split: option.splits)
  qed (use n Pair in \<open>auto simp: notified_def pause_def resume_def split: option.splits\<close>)
qed

lemma run_notified: "notified cb c \<Longrightarrow> notified cb (run es c)"
  unfolding run_def by (induction es arbitrary: c) (simp_all add: step_notified)


lemma length_scale: "length (scale v data) = length data"
  by (simp add: scale_def)

lemma length_silence: "length (silence n ch) = n"
  by (simp add: silence_def)

lemma callback_short:
  assumes "\<not> paused p" and "sf_read (sf p) frames = (data, f)" and "length data < frames"
  shows "callback p frames =
     Raise CallbackStop
       \<lparr>cb_player = p\<lparr>sf := f\<rparr>,
        cb_outdata = scale (volume p) data @ silence (frames - length data) (channels p),
        cb_spawned = (case finished_callback p of None \<Rightarrow> [] | Some cb \<Rightarrow> [cb])\<rparr>"
  using assms by (simp add: callback_def)

lemma step_inactive:
  assumes "stream p = Some st" and "\<not> st_active st"
  shows "stream (fst (step e (p, ns))) = Some st \<and> snd (step e (p, ns)) = ns"
proof (cases e)
  case Tick
  with assms show ?thesis by (simp add: stream_tick_def)
next
  case (Seek s)
  with assms seek_frame [of p s] show ?thesis by auto
next
  case (Set_volume v)
  with assms set_volume_cases [of p v] show ?thesis by auto
qed (use assms in \<open>auto simp: pause_def resume_def\<close>)

lemma run_inactive:
  assumes "stream p = Some st" and "\<not> st_active st"
  shows "stream (fst (run es (p, ns))) = Some st \<and> snd (run es (p, ns)) = ns"
  using assms
proof (induction es arbitrary: p ns)
  case Nil
  then show ?case by (simp add: run_def)
next
  case (Cons e es)
  obtain q ms where st: "step e (p, ns) = (q, ms)" by (cases "step e (p, ns)")
  from step_inactive [OF Cons.prems, of e ns] st have "stream q = Some st" "ms = ns" by simp_all
  with Cons.IH [of q ms] Cons.prems(2) st show ?case by (simp add: run_def)
qed

text \<open>
  Claim C1. In a non-paused invocation in which the reader supplies fewer frames than
  the block asks for, the callback writes the frames read, each sample multiplied by
  the current volume, at the start of the block, and after them rows of one zero per
  channel up to the \<open>frames\<close> rows of the block; it starts one thread for the registered
  completion callback without running it, and raises \<^verbatim>\<open>CallbackStop\<close>. The audio
  subsystem then marks the stream inactive, after which no history of ticks and control
  operations dispatches anything more; and along every history of a started engine the
  notifications dispatched are none while the stream is active and exactly one once it
  has finished. The callback is the one \<^verbatim>\<open>play_track\<close> registers before it starts the
  thread that creates the stream (\<open>play_track_registers_callback\<close> below).
\<close>

theorem short_read_finishes_stream:
  assumes cb: "finished_callback p = Some cb" and np: "\<not> paused p"
    and rd: "sf_read (sf p) frames = (data, f)" and short: "length data < frames"
  shows "callback p frames =
           Raise CallbackStop
             \<lparr>cb_player = p\<lparr>sf := f\<rparr>,
              cb_outdata = map (map (\<lambda>x. x * volume p)) data
                           @ replicate (frames - length data) (replicate (channels p) 0),
              cb_spawned = [cb]\<rparr> \<and>
         length (cb_outdata (state_of (callback p frames))) = frames \<and>
         take (length data) (cb_outdata (state_of (callback p frames)))
           = map (map (\<lambda>x. x * volume p)) data \<and>
         (\<forall>row \<in> set (drop (length data) (cb_outdata (state_of (callback p frames)))).
            length row = channels p \<and> (\<forall>x \<in> set row. x = 0)) \<and>
         (stream p = Some st \<and> st_active st \<and> st_blocksize st = frames \<longrightarrow>
            stream_tick p =
              \<lparr>cb_player = p\<lparr>sf := f, stream := Some (st\<lparr>st_active := False\<rparr>)\<rparr>,
               cb_outdata = map (map (\<lambda>x. x * volume p)) data
                            @ replicate (frames - length data) (replicate (channels p) 0),
               cb_spawned = [cb]\<rparr> \<and>
            snd (run es (cb_player (stream_tick p), [cb])) = [cb] \<and>
            notified cb (run hs (p, [])))"
proof -
  let ?out = "map (map (\<lambda>x. x * volume p)) data
              @ replicate (frames - length data) (replicate (channels p) 0)"
  have 1: "callback p frames =
           Raise CallbackStop \<lparr>cb_player = p\<lparr>sf := f\<rparr>, cb_outdata = ?out, cb_spawned = [cb]\<rparr>"
    using callback_short [OF np rd short] cb by (simp add: scale_def silence_def)
  have o: "cb_outdata (state_of (callback p frames)) = ?out" by (simp add: 1)
  have 2: "length (cb_outdata (state_of (callback p frames))) = frames"
    unfolding o using short by simp
  have 3: "take (length data) (cb_outdata (state_of (callback p frames)))
           = map (map (\<lambda>x. x * volume p)) data"
    unfolding o by simp
  have 4: "\<forall>row \<in> set (drop (length data) (cb_outdata (state_of (callback p frames)))).
            length row = channels p \<and> (\<forall>x \<in> set row. x = 0)"
    unfolding o by simp
  have 5: "stream_tick p =
              \<lparr>cb_player = p\<lparr>sf := f, stream := Some (st\<lparr>st_active := False\<rparr>)\<rparr>,
               cb_outdata = ?out, cb_spawned = [cb]\<rparr> \<and>
           snd (run es (cb_player (stream_tick p), [cb])) = [cb] \<and>
           notified cb (run hs (p, []))"
    if s: "stream p = Some st" and a: "st_active st" and b: "st_blocksize st = frames"
  proof -
    have t: "stream_tick p =
        \<lparr>cb_player = p\<lparr>sf := f, stream := Some (st\<lparr>st_active := False\<rparr>)\<rparr>,
         cb_outdata = ?out, cb_spawned = [cb]\<rparr>"
      using s a b 1 by (simp add: stream_tick_def)
    have i: "stream (cb_player (stream_tick p)) = Some (st\<lparr>st_active := False\<rparr>)"
      by (simp add: t)
    have n: "notified cb (p, [])" using cb s a by (simp add: notified_def)
    from t run_inactive [OF i, of es "[cb]"] run_notified [OF n, of hs]
    show ?thesis by simp
  qed
  from 1 2 3 4 5 show ?thesis by blast
qed

text \<open>
  An instance: the demo engine, on its three-frame file at volume one half, asked for
  five frames, writes the three halved frames and two rows of zero; and a tick of its
  2048-frame stream dispatches the one notification, after which nothing more is
  dispatched.
\<close>

theorem short_read_finishes_stream_witness:
  "callback demo_player 5 =
     Raise CallbackStop
       \<lparr>cb_player = demo_player\<lparr>sf := (sf demo_player)\<lparr>sf_pos := 3\<rparr>\<rparr>,
        cb_outdata = [[1 / 4], [1 / 8], [- 1 / 4], [0], [0]],
        cb_spawned = [On_finished ''A'']\<rparr> \<and>
   cb_outdata (stream_tick demo_player) = [[1 / 4], [1 / 8], [- 1 / 4]] @ replicate 2045 [0] \<and>
   cb_spawned (stream_tick demo_player) = [On_finished ''A''] \<and>
   snd (run [Tick, Seek 0, Resume, Tick] (cb_player (stream_tick demo_player), [On_finished ''A'']))
     = [On_finished ''A'']"
proof -
  have cb: "finished_callback demo_player = Some (On_finished ''A'')"
    by (simp add: demo_player_def)
  have np: "\<not> paused demo_player" by (simp add: demo_player_def)
  have rd5: "sf_read (sf demo_player) 5 =
      ([[1 / 2], [1 / 4], [- 1 / 2]], (sf demo_player)\<lparr>sf_pos := 3\<rparr>)"
    by (simp add: demo_player_def demo_audio_def sf_read_def Let_def)
  have rd: "sf_read (sf demo_player) 2048 =
      ([[1 / 2], [1 / 4], [- 1 / 2]], (sf demo_player)\<lparr>sf_pos := 3\<rparr>)"
    by (simp add: demo_player_def demo_audio_def sf_read_def Let_def)
  have short5: "length [[1 / 2 :: real], [1 / 4], [- 1 / 2]] < 5" by simp
  have short: "length [[1 / 2 :: real], [1 / 4], [- 1 / 2]] < 2048" by simp
  have st: "stream demo_player =
      Some \<lparr>st_samplerate = 2, st_channels = 1, st_blocksize = 2048, st_active = True\<rparr>"
    by (simp add: demo_player_def)
  have v: "volume demo_player = 1 / 2" "channels demo_player = 1"
    by (simp_all add: demo_player_def)
  have two: "replicate (5 - 3) [0::real] = [[0], [0]]" by (simp add: numeral_2_eq_2)
  from short_read_finishes_stream [OF cb np rd5 short5,
      of "\<lparr>st_samplerate = 2, st_channels = 1, st_blocksize = 2048, st_active = True\<rparr>" "[]" "[]"]
  have a: "callback demo_player 5 =
     Raise CallbackStop
       \<lparr>cb_player = demo_player\<lparr>sf := (sf demo_player)\<lparr>sf_pos := 3\<rparr>\<rparr>,
        cb_outdata = [[1 / 4], [1 / 8], [- 1 / 4], [0], [0]],
        cb_spawned = [On_finished ''A'']\<rparr>"
    using two by (simp add: v)
  let ?st = "\<lparr>st_samplerate = 2, st_channels = 1, st_blocksize = 2048, st_active = True\<rparr>"
  have h: "stream demo_player = Some ?st \<and> st_active ?st \<and> st_blocksize ?st = 2048"
    by (simp add: st)
  note T = short_read_finishes_stream [OF cb np rd short,
      of ?st "[Tick, Seek 0, Resume, Tick]" "[]"]
  from T h have tick: "stream_tick demo_player =
      \<lparr>cb_player = demo_player\<lparr>sf := (sf demo_player)\<lparr>sf_pos := 3\<rparr>,
                                 stream := Some (?st\<lparr>st_active := False\<rparr>)\<rparr>,
       cb_outdata = map (map (\<lambda>x. x * volume demo_player)) [[1 / 2], [1 / 4], [- 1 / 2]]
                    @ replicate (2048 - length [[1 / 2 :: real], [1 / 4], [- 1 / 2]])
                        (replicate (channels demo_player) 0),
       cb_spawned = [On_finished ''A'']\<rparr>"
    by blast
  from T h have r: "snd (run [Tick, Seek 0, Resume, Tick]
      (cb_player (stream_tick demo_player), [On_finished ''A''])) = [On_finished ''A'']"
    by blast
  have o: "cb_outdata (stream_tick demo_player) = [[1 / 4], [1 / 8], [- 1 / 4]] @ replicate 2045 [0]"
    unfolding tick by (simp add: v)
  have sp: "cb_spawned (stream_tick demo_player) = [On_finished ''A'']"
    unfolding tick by simp
  from o sp r
  have b: "cb_outdata (stream_tick demo_player) = [[1 / 4], [1 / 8], [- 1 / 4]] @ replicate 2045 [0] \<and>
   cb_spawned (stream_tick demo_player) = [On_finished ''A''] \<and>
   snd (run [Tick, Seek 0, Resume, Tick] (cb_player (stream_tick demo_player), [On_finished ''A'']))
     = [On_finished ''A'']"
    by blast
  from a b show ?thesis by blast
qed

lemma callback_full:
  assumes "\<not> paused p" and "sf_read (sf p) frames = (data, f)" and "\<not> length data < frames"
  shows "callback p frames =
     Return \<lparr>cb_player = p\<lparr>sf := f, current_frame := sf_tell f\<rparr>,
             cb_outdata = scale (volume p) data, cb_spawned = []\<rparr>"
  using assms by (simp add: callback_def)

lemma callback_cursor_monotone:
  assumes "current_frame p \<le> sf_tell (sf p)"
  shows "current_frame p \<le> current_frame (cb_player (state_of (callback p frames))) \<and>
         current_frame (cb_player (state_of (callback p frames)))
           \<le> sf_tell (sf (cb_player (state_of (callback p frames))))"
  using assms by (simp add: callback_def sf_read_def sf_tell_def Let_def)

lemma callbacks_cursor_monotone:
  "current_frame p \<le> sf_tell (sf p) \<Longrightarrow>
   current_frame p \<le> current_frame (callbacks frs p) \<and>
   current_frame (callbacks frs p) \<le> sf_tell (sf (callbacks frs p))"
proof (induction frs arbitrary: p)
  case Nil
  then show ?case by (simp add: callbacks_def)
next
  case (Cons fr frs)
  let ?q = "cb_player (state_of (callback p fr))"
  from callback_cursor_monotone [OF Cons.prems, of fr]
  have a: "current_frame p \<le> current_frame ?q" and b: "current_frame ?q \<le> sf_tell (sf ?q)"
    by simp_all
  from Cons.IH [OF b] a show ?case by (simp add: callbacks_def)
qed

text \<open>
  Claim C2 fails on the code at the last block of a file. An invocation that reads a
  full block sets the cursor to the reader's position (\<open>callback_full\<close>), and the cursor
  never moves back under the callback (\<open>callbacks_cursor_monotone\<close>). But on a short
  read the callback raises \<^verbatim>\<open>CallbackStop\<close> before it reaches the assignment
  \<^verbatim>\<open>self.current_frame = self.sf.tell()\<close>: on a three-frame file and a block of 2048
  frames the cursor stays at 0 while the reader is at 3, and with blocks of 2 frames the
  cursor is 2 after the first block and still 2 after the second, where the reader is
  at 3.
\<close>

theorem short_read_leaves_cursor_stale:
  "current_frame (cb_player (state_of (callback demo_player 2048))) = 0 \<and>
   sf_tell (sf (cb_player (state_of (callback demo_player 2048)))) = 3 \<and>
   current_frame (callbacks [2] demo_player) = 2 \<and>
   sf_tell (sf (callbacks [2] demo_player)) = 2 \<and>
   current_frame (callbacks [2, 2] demo_player) = 2 \<and>
   sf_tell (sf (callbacks [2, 2] demo_player)) = 3"
  by (simp add: callbacks_def callback_def demo_player_def demo_audio_def sf_read_def sf_tell_def Let_def)

section \<open>The transport controls\<close>

subsection \<open>Volume\<close>

lemma no_overflow_below_2_1024:
  "\<bar>v\<bar> < 2 ^ 1024 \<Longrightarrow> \<not> float_overflows (real_of_int v / 100)"
proof -
  assume "\<bar>v\<bar> < 2 ^ 1024"
  then have "real_of_int \<bar>v\<bar> < real_of_int (2 ^ 1024)" by (simp only: of_int_less_iff)
  then have "\<bar>real_of_int v\<bar> < 2 ^ 1024" by simp
  then have "\<bar>real_of_int v / 100\<bar> < 2 ^ 1024 / 100" by simp
  moreover have "(2::real) ^ 1024 / 100 \<le> 2 ^ 1024 - 2 ^ 970" by simp
  ultimately show ?thesis by (simp add: float_overflows_def)
qed

text \<open>
  Claim C5, as amended. For every integer \<open>v\<close> whose quotient \<open>v / 100\<close> is a finite
  double, which includes every \<open>v\<close> of magnitude below \<open>2^1024\<close>, \<^verbatim>\<open>set_volume(v)\<close>
  returns normally and the volume read back afterwards is \<open>clamp(v, 0, 100) / 100\<close>, a
  scalar in \<open>[0, 1]\<close>: values outside \<open>[0, 100]\<close> are clamped, and nothing else of the
  engine changes. For an integer beyond that range the division raises
  \<^verbatim>\<open>OverflowError\<close> and the volume stays as it was.
\<close>

theorem set_volume_clamps:
  "set_volume p v =
     (if float_overflows (real_of_int v / 100) then Raise OverflowError p
      else Return (p\<lparr>volume := real_of_int (min 100 (max v 0)) / 100\<rparr>)) \<and>
   0 \<le> real_of_int (min 100 (max v 0)) / 100 \<and>
   real_of_int (min 100 (max v 0)) / 100 \<le> 1 \<and>
   (\<bar>v\<bar> < 2 ^ 1024 \<longrightarrow>
      set_volume p v = Return (p\<lparr>volume := real_of_int (min 100 (max v 0)) / 100\<rparr>))"
proof -
  have c: "np_clip (real_of_int v / 100) 0 1 = real_of_int (min 100 (max v 0)) / 100"
    by (simp add: np_clip_def min_def max_def)
  have 1: "set_volume p v =
     (if float_overflows (real_of_int v / 100) then Raise OverflowError p
      else Return (p\<lparr>volume := real_of_int (min 100 (max v 0)) / 100\<rparr>))"
    by (simp only: set_volume_def c)
  have 2: "0 \<le> real_of_int (min 100 (max v 0)) / 100 \<and> real_of_int (min 100 (max v 0)) / 100 \<le> 1"
    by (simp add: min_def max_def)
  have 3: "set_volume p v = Return (p\<lparr>volume := real_of_int (min 100 (max v 0)) / 100\<rparr>)"
    if "\<bar>v\<bar> < 2 ^ 1024"
    using no_overflow_below_2_1024 [OF that] by (simp only: 1 if_False)
  from 1 2 3 show ?thesis by blast
qed

text \<open>
  Instances: 250 is clamped to volume 1, -7 to volume 0, and 40 gives two fifths.
\<close>

theorem set_volume_clamps_witness:
  "set_volume demo_player 250 = Return (demo_player\<lparr>volume := 1\<rparr>) \<and>
   set_volume demo_player (- 7) = Return (demo_player\<lparr>volume := 0\<rparr>) \<and>
   set_volume demo_player 40 = Return (demo_player\<lparr>volume := 2 / 5\<rparr>)"
proof -
  have a: "\<bar>250 :: int\<bar> < 2 ^ 1024" "\<bar>- 7 :: int\<bar> < 2 ^ 1024" "\<bar>40 :: int\<bar> < 2 ^ 1024"
    by simp_all
  from set_volume_clamps [of demo_player 250] a(1)
  have "set_volume demo_player 250 =
      Return (demo_player\<lparr>volume := real_of_int (min 100 (max 250 0)) / 100\<rparr>)" by blast
  then have 1: "set_volume demo_player 250 = Return (demo_player\<lparr>volume := 1\<rparr>)" by simp
  from set_volume_clamps [of demo_player "- 7"] a(2)
  have "set_volume demo_player (- 7) =
      Return (demo_player\<lparr>volume := real_of_int (min 100 (max (- 7) 0)) / 100\<rparr>)" by blast
  then have 2: "set_volume demo_player (- 7) = Return (demo_player\<lparr>volume := 0\<rparr>)" by simp
  from set_volume_clamps [of demo_player 40] a(3)
  have "set_volume demo_player 40 =
      Return (demo_player\<lparr>volume := real_of_int (min 100 (max 40 0)) / 100\<rparr>)" by blast
  then have 3: "set_volume demo_player 40 = Return (demo_player\<lparr>volume := 2 / 5\<rparr>)" by simp
  from 1 2 3 show ?thesis by blast
qed

text \<open>
  The claim as stated fails for an integer whose hundredth is too large for a float:
  \<^verbatim>\<open>set_volume(10 ** 400)\<close> raises, and the volume of the demo engine stays one half.
\<close>

theorem set_volume_overflow_raises:
  "set_volume demo_player (10 ^ 400) = Raise OverflowError demo_player \<and>
   volume (state_of (set_volume demo_player (10 ^ 400))) = 1 / 2"
proof -
  have "float_overflows (real_of_int (10 ^ 400) / 100)" by (simp add: float_overflows_def)
  then have "set_volume demo_player (10 ^ 400) = Raise OverflowError demo_player"
    by (simp only: set_volume_def if_True)
  then show ?thesis by (simp add: demo_player_def)
qed

subsection \<open>Seeking\<close>

lemma sf_seek_in_range:
  "0 \<le> fr \<Longrightarrow> fr \<le> int (sf_len f) \<Longrightarrow> sf_seek f fr = Inr (f\<lparr>sf_pos := nat fr\<rparr>)"
  by (simp add: sf_seek_def)

lemma np_clip_bounds: "lo \<le> hi \<Longrightarrow> lo \<le> np_clip a lo hi \<and> np_clip a lo hi \<le> hi"
  by (auto simp: np_clip_def min_def max_def)

lemma seek_overflow:
  "float_overflows (seconds * real_of_int (samplerate p)) \<Longrightarrow> seek p seconds = Raise OverflowError p"
  by (simp add: seek_def)

lemma seek_returns:
  assumes "\<not> float_overflows (seconds * real_of_int (samplerate p))"
  shows "seek p seconds =
     Return (p\<lparr>sf := (sf p)\<lparr>sf_pos :=
                 nat (np_clip (py_int (seconds * real_of_int (samplerate p))) 0 (int (sf_len (sf p))))\<rparr>,
               current_frame :=
                 nat (np_clip (py_int (seconds * real_of_int (samplerate p))) 0 (int (sf_len (sf p))))\<rparr>)"
proof -
  let ?fr = "np_clip (py_int (seconds * real_of_int (samplerate p))) 0 (int (sf_len (sf p)))"
  have "0 \<le> ?fr \<and> ?fr \<le> int (sf_len (sf p))" by (rule np_clip_bounds) simp
  then have "sf_seek (sf p) ?fr = Inr ((sf p)\<lparr>sf_pos := nat ?fr\<rparr>)"
    by (simp add: sf_seek_in_range)
  with assms show ?thesis by (simp add: seek_def Let_def sf_tell_def)
qed

lemma py_int_nonneg: "0 \<le> x \<Longrightarrow> py_int x = \<lfloor>x\<rfloor>"
  by (simp add: py_int_def)

lemma seek_target_in_range:
  assumes sr: "0 < samplerate p" and lo: "0 \<le> seconds"
    and hi: "seconds \<le> real (sf_len (sf p)) / real_of_int (samplerate p)"
  shows "np_clip (py_int (seconds * real_of_int (samplerate p))) 0 (int (sf_len (sf p)))
           = \<lfloor>seconds * real_of_int (samplerate p)\<rfloor>"
proof -
  let ?x = "seconds * real_of_int (samplerate p)"
  from sr have srp: "0 < real_of_int (samplerate p)" by simp
  from lo srp have x0: "0 \<le> ?x" by simp
  from hi srp have xn: "?x \<le> real (sf_len (sf p))" by (simp add: pos_le_divide_eq)
  from x0 have f0: "0 \<le> \<lfloor>?x\<rfloor>" by simp
  have "\<lfloor>?x\<rfloor> \<le> \<lfloor>real (sf_len (sf p))\<rfloor>" using xn by (rule floor_mono)
  then have fn: "\<lfloor>?x\<rfloor> \<le> int (sf_len (sf p))" by simp
  from x0 f0 fn show ?thesis by (simp add: py_int_nonneg np_clip_def)
qed

lemma tick_after_seek:
  assumes cur: "current_frame q = sf_tell (sf q)"
    and bs: "case stream q of None \<Rightarrow> True | Some st \<Rightarrow> st_blocksize st = 2048"
  shows "current_frame (cb_player (stream_tick q)) = current_frame q \<or>
         current_frame (cb_player (stream_tick q)) = current_frame q + 2048"
proof (cases "stream q")
  case None
  then show ?thesis by (simp add: stream_tick_def)
next
  case (Some st)
  with bs have b: "st_blocksize st = 2048" by simp
  show ?thesis
  proof (cases "st_active st \<and> \<not> paused q")
    case False
    with Some show ?thesis by (auto simp: stream_tick_def callback_def)
  next
    case True
    obtain data f where rd: "sf_read (sf q) 2048 = (data, f)" by (cases "sf_read (sf q) 2048")
    show ?thesis
    proof (cases "length data < 2048")
      case short: True
      with Some b True rd show ?thesis by (simp add: stream_tick_def callback_def)
    next
      case full: False
      from rd have "length data \<le> 2048" by (auto simp: sf_read_def Let_def)
      with full have len: "length data = 2048" by simp
      from rd len have "sf_tell f = sf_tell (sf q) + 2048"
        by (auto simp: sf_read_def sf_tell_def Let_def)
      with Some b True rd full cur show ?thesis by (simp add: stream_tick_def callback_def)
    qed
  qed
qed

lemma stream_tick_samplerate: "samplerate (cb_player (stream_tick q)) = samplerate q"
  by (simp add: stream_tick_def callback_def sf_read_def Let_def split: option.splits)

lemma position_after_tick:
  assumes sr: "0 < samplerate q" and cur: "current_frame q = sf_tell (sf q)"
    and lo: "real (current_frame q) \<le> seconds * real_of_int (samplerate q)"
    and hi: "seconds * real_of_int (samplerate q) < real (current_frame q) + 1"
    and bs: "case stream q of None \<Rightarrow> True | Some st \<Rightarrow> st_blocksize st = 2048"
  shows "\<exists>pos. get_position (t\<lparr>player := cb_player (stream_tick q)\<rparr>) = Inr pos \<and>
               \<bar>pos - seconds\<bar> \<le> 2048 / real_of_int (samplerate q)"
proof -
  let ?sr = "real_of_int (samplerate q)"
  let ?c = "current_frame (cb_player (stream_tick q))"
  from sr have srp: "0 < ?sr" by simp
  have gp: "get_position (t\<lparr>player := cb_player (stream_tick q)\<rparr>) = Inr (real ?c / ?sr)"
    using sr by (simp add: get_position_def stream_tick_samplerate)
  from tick_after_seek [OF cur bs]
  have "real ?c = real (current_frame q) \<or> real ?c = real (current_frame q) + 2048" by auto
  with lo hi have "\<bar>real ?c - seconds * ?sr\<bar> \<le> 2048" by auto
  then have "\<bar>real ?c - seconds * ?sr\<bar> / ?sr \<le> 2048 / ?sr"
    using srp by (simp add: divide_right_mono)
  moreover have "\<bar>real ?c - seconds * ?sr\<bar> / ?sr = \<bar>real ?c / ?sr - seconds\<bar>"
    using srp by (simp add: abs_div_pos diff_divide_distrib)
  ultimately have "\<bar>real ?c / ?sr - seconds\<bar> \<le> 2048 / ?sr" by simp
  with gp show ?thesis by blast
qed

text \<open>
  Claim C4, as amended. For every real number of seconds whose product with the sample
  rate is a finite double, \<^verbatim>\<open>seek(seconds)\<close> returns normally: it converts the seconds to
  the frame offset \<open>int(seconds * samplerate)\<close>, clamps it to \<open>[0, len]\<close> and repositions
  the reader and the read cursor there, so a target at or below 0 lands on frame 0 and a
  target at or past the duration lands on the last position instead of failing. For a
  target within \<open>[0, duration]\<close> the position read back right after is at most the
  target and less than one frame short of it, hence within the time of one callback
  block (2048 frames) of it; and it is still within that time of the target when the
  audio subsystem has delivered one tick in between. When the product overflows to
  infinity, \<^verbatim>\<open>int()\<close> raises \<^verbatim>\<open>OverflowError\<close> to the caller and nothing is moved.
\<close>

theorem seek_clamps_within_float_range:
  "(float_overflows (seconds * real_of_int (samplerate p)) \<longrightarrow>
      seek p seconds = Raise OverflowError p \<and>
      Track_seek (t\<lparr>player := p\<rparr>) seconds = Raise OverflowError (t\<lparr>player := p\<rparr>)) \<and>
   (\<not> float_overflows (seconds * real_of_int (samplerate p)) \<longrightarrow>
     (\<exists>q. seek p seconds = Return q \<and>
        sf_tell (sf q) = nat (np_clip (py_int (seconds * real_of_int (samplerate p))) 0 (int (sf_len (sf p)))) \<and>
        current_frame q = sf_tell (sf q) \<and> sf_tell (sf q) \<le> sf_len (sf p) \<and>
        Track_seek (t\<lparr>player := p\<rparr>) seconds = Return (t\<lparr>player := q\<rparr>) \<and>
        (seconds \<le> 0 \<and> 0 \<le> samplerate p \<longrightarrow> current_frame q = 0) \<and>
        (0 < samplerate p \<and> real (sf_len (sf p)) / real_of_int (samplerate p) \<le> seconds
           \<longrightarrow> current_frame q = sf_len (sf p)) \<and>
        (0 < samplerate p \<and> 0 \<le> seconds \<and> seconds \<le> real (sf_len (sf p)) / real_of_int (samplerate p)
           \<longrightarrow> (\<exists>pos. get_position (t\<lparr>player := q\<rparr>) = Inr pos \<and> pos \<le> seconds \<and>
                  seconds - pos < 1 / real_of_int (samplerate p) \<and>
                  \<bar>pos - seconds\<bar> \<le> 2048 / real_of_int (samplerate p))) \<and>
        (0 < samplerate p \<and> 0 \<le> seconds \<and> seconds \<le> real (sf_len (sf p)) / real_of_int (samplerate p) \<and>
         (case stream p of None \<Rightarrow> True | Some st \<Rightarrow> st_blocksize st = 2048)
           \<longrightarrow> (\<exists>pos. get_position (t\<lparr>player := cb_player (stream_tick q)\<rparr>) = Inr pos \<and>
                  \<bar>pos - seconds\<bar> \<le> 2048 / real_of_int (samplerate p)))))"
proof -
  let ?x = "seconds * real_of_int (samplerate p)"
  let ?n = "int (sf_len (sf p))"
  let ?fr = "np_clip (py_int ?x) 0 ?n"
  let ?q = "p\<lparr>sf := (sf p)\<lparr>sf_pos := nat ?fr\<rparr>, current_frame := nat ?fr\<rparr>"
  have ovf: "seek p seconds = Raise OverflowError p \<and>
      Track_seek (t\<lparr>player := p\<rparr>) seconds = Raise OverflowError (t\<lparr>player := p\<rparr>)"
    if "float_overflows ?x"
    using seek_overflow [OF that] by (simp add: Track_seek_def)
  have tell: "sf_tell (sf ?q) = nat ?fr" by (simp add: sf_tell_def)
  have cur: "current_frame ?q = sf_tell (sf ?q)" by (simp add: sf_tell_def)
  have bnd: "0 \<le> ?fr \<and> ?fr \<le> ?n" by (rule np_clip_bounds) simp
  then have "nat ?fr \<le> sf_len (sf p)" by linarith
  then have le: "sf_tell (sf ?q) \<le> sf_len (sf p)" by (simp add: sf_tell_def)
  have neg: "current_frame ?q = 0" if "seconds \<le> 0 \<and> 0 \<le> samplerate p"
  proof -
    from that have "?x \<le> 0" by (simp add: mult_nonpos_nonneg)
    then have "py_int ?x \<le> 0" by (auto simp: py_int_def ceiling_le_zero intro: order_trans)
    then show ?thesis by (simp add: np_clip_def)
  qed
  have past: "current_frame ?q = sf_len (sf p)"
    if "0 < samplerate p \<and> real (sf_len (sf p)) / real_of_int (samplerate p) \<le> seconds"
  proof -
    from that have srp: "0 < real_of_int (samplerate p)" by simp
    from that srp have xn: "real (sf_len (sf p)) \<le> ?x" by (simp add: pos_divide_le_eq)
    then have x0: "0 \<le> ?x" by (rule order_trans [rotated]) simp
    have "\<lfloor>real (sf_len (sf p))\<rfloor> \<le> \<lfloor>?x\<rfloor>" using xn by (rule floor_mono)
    then have "?n \<le> py_int ?x" using x0 by (simp add: py_int_nonneg)
    then show ?thesis by (simp add: np_clip_def)
  qed
  have pos: "\<exists>pos. get_position (t\<lparr>player := ?q\<rparr>) = Inr pos \<and> pos \<le> seconds \<and>
                  seconds - pos < 1 / real_of_int (samplerate p) \<and>
                  \<bar>pos - seconds\<bar> \<le> 2048 / real_of_int (samplerate p)"
    if h: "0 < samplerate p \<and> 0 \<le> seconds \<and>
           seconds \<le> real (sf_len (sf p)) / real_of_int (samplerate p)"
  proof -
    let ?sr = "real_of_int (samplerate p)"
    let ?pos = "real_of_int \<lfloor>?x\<rfloor> / ?sr"
    from h have srp: "0 < ?sr" by simp
    from h have fr: "?fr = \<lfloor>?x\<rfloor>" by (simp add: seek_target_in_range)
    from h srp have "0 \<le> ?x" by simp
    then have f0: "0 \<le> \<lfloor>?x\<rfloor>" by simp
    have gp: "get_position (t\<lparr>player := ?q\<rparr>) = Inr ?pos"
      using h f0 by (simp add: get_position_def fr)
    have fl: "real_of_int \<lfloor>?x\<rfloor> \<le> ?x" by (rule of_int_floor_le)
    have a: "?pos \<le> seconds" using srp fl by (simp only: pos_divide_le_eq)
    have "?x < real_of_int \<lfloor>?x\<rfloor> + 1" by linarith
    then have "seconds < (real_of_int \<lfloor>?x\<rfloor> + 1) / ?sr"
      using srp by (simp only: pos_less_divide_eq)
    then have b: "seconds - ?pos < 1 / ?sr" by (simp only: add_divide_distrib)
    have "1 / ?sr \<le> 2048 / ?sr" using srp by (simp add: divide_right_mono)
    with a b have c: "\<bar>?pos - seconds\<bar> \<le> 2048 / ?sr" by simp
    from gp a b c show ?thesis by blast
  qed
  have tick: "\<exists>pos. get_position (t\<lparr>player := cb_player (stream_tick ?q)\<rparr>) = Inr pos \<and>
                  \<bar>pos - seconds\<bar> \<le> 2048 / real_of_int (samplerate p)"
    if h: "0 < samplerate p \<and> 0 \<le> seconds \<and>
           seconds \<le> real (sf_len (sf p)) / real_of_int (samplerate p) \<and>
           (case stream p of None \<Rightarrow> True | Some st \<Rightarrow> st_blocksize st = 2048)"
  proof -
    from h have sr: "0 < samplerate ?q" by simp
    from h have fr: "?fr = \<lfloor>?x\<rfloor>" by (simp add: seek_target_in_range)
    from h have "0 \<le> ?x" by simp
    then have f0: "0 \<le> \<lfloor>?x\<rfloor>" by simp
    have c: "real (current_frame ?q) = real_of_int \<lfloor>?x\<rfloor>" using f0 by (simp add: fr)
    have lo: "real (current_frame ?q) \<le> seconds * real_of_int (samplerate ?q)"
      unfolding c by simp
    have hi: "seconds * real_of_int (samplerate ?q) < real (current_frame ?q) + 1"
      unfolding c by simp
    have bs: "case stream ?q of None \<Rightarrow> True | Some st \<Rightarrow> st_blocksize st = 2048"
      using h by simp
    from position_after_tick [OF sr cur lo hi bs, of t] show ?thesis by simp
  qed
  have fin: "\<exists>q. seek p seconds = Return q \<and>
        sf_tell (sf q) = nat ?fr \<and>
        current_frame q = sf_tell (sf q) \<and> sf_tell (sf q) \<le> sf_len (sf p) \<and>
        Track_seek (t\<lparr>player := p\<rparr>) seconds = Return (t\<lparr>player := q\<rparr>) \<and>
        (seconds \<le> 0 \<and> 0 \<le> samplerate p \<longrightarrow> current_frame q = 0) \<and>
        (0 < samplerate p \<and> real (sf_len (sf p)) / real_of_int (samplerate p) \<le> seconds
           \<longrightarrow> current_frame q = sf_len (sf p)) \<and>
        (0 < samplerate p \<and> 0 \<le> seconds \<and> seconds \<le> real (sf_len (sf p)) / real_of_int (samplerate p)
           \<longrightarrow> (\<exists>pos. get_position (t\<lparr>player := q\<rparr>) = Inr pos \<and> pos \<le> seconds \<and>
                  seconds - pos < 1 / real_of_int (samplerate p) \<and>
                  \<bar>pos - seconds\<bar> \<le> 2048 / real_of_int (samplerate p))) \<and>
        (0 < samplerate p \<and> 0 \<le> seconds \<and> seconds \<le> real (sf_len (sf p)) / real_of_int (samplerate p) \<and>
         (case stream p of None \<Rightarrow> True | Some st \<Rightarrow> st_blocksize st = 2048)
           \<longrightarrow> (\<exists>pos. get_position (t\<lparr>player := cb_player (stream_tick q)\<rparr>) = Inr pos \<and>
                  \<bar>pos - seconds\<bar> \<le> 2048 / real_of_int (samplerate p)))"
    if nov: "\<not> float_overflows ?x"
  proof -
    have ret: "seek p seconds = Return ?q" using nov by (rule seek_returns)
    have trk: "Track_seek (t\<lparr>player := p\<rparr>) seconds = Return (t\<lparr>player := ?q\<rparr>)"
      by (simp add: Track_seek_def ret)
    from ret tell cur le trk neg past pos tick show ?thesis by blast
  qed
  from ovf fin show ?thesis by blast
qed

text \<open>
  An instance: on the demo engine (2 frames per second, 3 frames), a seek to three
  quarters of a second lands on frame 1, and the position read back is within a block
  of the target.
\<close>

theorem seek_clamps_within_float_range_witness:
  "seek demo_player (3 / 4) =
     Return (demo_player\<lparr>sf := (sf demo_player)\<lparr>sf_pos := 1\<rparr>, current_frame := 1\<rparr>) \<and>
   (\<exists>pos. get_position (demo_track\<lparr>player := state_of (seek demo_player (3 / 4))\<rparr>) = Inr pos \<and>
          \<bar>pos - 3 / 4\<bar> \<le> 2048 / 2)"
proof -
  have nov: "\<not> float_overflows (3 / 4 * real_of_int (samplerate demo_player))"
    by (simp add: demo_player_def float_overflows_def)
  have s: "seek demo_player (3 / 4) =
     Return (demo_player\<lparr>sf := (sf demo_player)\<lparr>sf_pos := 1\<rparr>, current_frame := 1\<rparr>)"
    using nov
    by (simp add: seek_def demo_player_def demo_audio_def py_int_def np_clip_def sf_len_def
        sf_seek_def sf_tell_def Let_def)
  have h: "0 < samplerate demo_player \<and> (0::real) \<le> 3 / 4 \<and>
      3 / 4 \<le> real (sf_len (sf demo_player)) / real_of_int (samplerate demo_player)"
    by (simp add: demo_player_def demo_audio_def sf_len_def)
  from seek_clamps_within_float_range [of "3 / 4" demo_player demo_track] nov
  obtain q where q: "seek demo_player (3 / 4) = Return q"
    and p: "0 < samplerate demo_player \<and> (0::real) \<le> 3 / 4 \<and>
              3 / 4 \<le> real (sf_len (sf demo_player)) / real_of_int (samplerate demo_player)
            \<longrightarrow> (\<exists>pos. get_position (demo_track\<lparr>player := q\<rparr>) = Inr pos \<and> pos \<le> 3 / 4 \<and>
                  3 / 4 - pos < 1 / real_of_int (samplerate demo_player) \<and>
                  \<bar>pos - 3 / 4\<bar> \<le> 2048 / real_of_int (samplerate demo_player))"
    by blast
  from p h obtain pos where g: "get_position (demo_track\<lparr>player := q\<rparr>) = Inr pos"
    and b: "\<bar>pos - 3 / 4\<bar> \<le> 2048 / real_of_int (samplerate demo_player)" by blast
  have sr: "real_of_int (samplerate demo_player) = 2" by (simp add: demo_player_def)
  from q have "state_of (seek demo_player (3 / 4)) = q" by simp
  with g b sr have "\<exists>pos. get_position (demo_track\<lparr>player := state_of (seek demo_player (3 / 4))\<rparr>) = Inr pos \<and>
          \<bar>pos - 3 / 4\<bar> \<le> 2048 / 2" by auto
  with s show ?thesis by blast
qed

text \<open>
  The claim as stated fails for a target whose frame offset overflows: on the demo
  engine \<^verbatim>\<open>seek(1e308)\<close> computes the product \<open>2e308\<close>, which is infinite as a double,
  and raises \<^verbatim>\<open>OverflowError\<close>; reader and cursor stay where they were.
\<close>

theorem seek_overflow_raises:
  "seek demo_player (10 ^ 308) = Raise OverflowError demo_player \<and>
   Track_seek demo_track (10 ^ 308) = Raise OverflowError demo_track"
proof -
  have "float_overflows (10 ^ 308 * real_of_int (samplerate demo_player))"
    by (simp add: demo_player_def float_overflows_def)
  then have s: "seek demo_player (10 ^ 308) = Raise OverflowError demo_player"
    by (rule seek_overflow)
  have pl: "player demo_track = demo_player" by (simp add: demo_track_def)
  have same: "demo_track\<lparr>player := demo_player\<rparr> = demo_track" by (simp add: demo_track_def)
  have "Track_seek demo_track (10 ^ 308) = Raise OverflowError (demo_track\<lparr>player := demo_player\<rparr>)"
    by (simp only: Track_seek_def pl s result.case)
  with same have "Track_seek demo_track (10 ^ 308) = Raise OverflowError demo_track" by simp
  with s show ?thesis by blast
qed

subsection \<open>Stopping\<close>

lemma stop_returns:
  "stop p =
     Return (p\<lparr>stream := None, sf := (sf p)\<lparr>sf_pos := 0\<rparr>, current_frame := 0\<rparr>,
             if stream p = None then [] else [Stream_stop, Stream_close])"
  by (cases "stream p") (simp_all add: stop_def sf_seek_def)

lemma Track_stop_returns:
  "Track_stop t =
     Return (t\<lparr>player := (player t)\<lparr>stream := None, sf := (sf (player t))\<lparr>sf_pos := 0\<rparr>,
                                     current_frame := 0\<rparr>\<rparr>,
             if stream (player t) = None then [] else [Stream_stop, Stream_close])"
  by (simp add: Track_stop_def stop_returns)

text \<open>
  Claim C6, as amended. \<^verbatim>\<open>stop()\<close> returns normally; it stops and closes the output
  stream if there is one and forgets it, rewinds the reader to frame 0 and resets the
  read cursor to 0, so that the position read back afterwards is 0. It does not close
  the reader: the reader keeps its \<^verbatim>\<open>closed\<close> attribute and its frames. A second
  \<^verbatim>\<open>stop()\<close>, or one on an engine without a stream, makes no call on any stream and
  leaves the state as the first one left it.
\<close>

theorem stop_rewinds_and_is_idempotent:
  "\<exists>t' calls.
     Track_stop t = Return (t', calls) \<and>
     calls = (if stream (player t) = None then [] else [Stream_stop, Stream_close]) \<and>
     stream (player t') = None \<and>
     sf_tell (sf (player t')) = 0 \<and>
     current_frame (player t') = 0 \<and>
     sf_closed (sf (player t')) = sf_closed (sf (player t)) \<and>
     sf_data (sf (player t')) = sf_data (sf (player t)) \<and>
     get_position t' = (if samplerate (player t) = 0 then Inl ZeroDivisionError else Inr 0) \<and>
     Track_stop t' = Return (t', [])"
proof -
  let ?t = "t\<lparr>player := (player t)\<lparr>stream := None, sf := (sf (player t))\<lparr>sf_pos := 0\<rparr>,
                                      current_frame := 0\<rparr>\<rparr>"
  have 1: "Track_stop t =
      Return (?t, if stream (player t) = None then [] else [Stream_stop, Stream_close])"
    by (rule Track_stop_returns)
  have 2: "Track_stop ?t = Return (?t, [])" by (simp add: Track_stop_returns)
  have 3: "get_position ?t = (if samplerate (player t) = 0 then Inl ZeroDivisionError else Inr 0)"
    by (simp add: get_position_def)
  from 1 2 3 show ?thesis by (simp add: sf_tell_def)
qed

text \<open>
  The claim as stated fails: after \<^verbatim>\<open>stop()\<close> the reader is still open, and it still
  serves the first frames of the file.
\<close>

theorem stop_leaves_reader_open:
  "\<not> sf_closed (sf (fst (state_of (stop demo_player)))) \<and>
   fst (sf_read (sf (fst (state_of (stop (callbacks [2] demo_player))))) 2) = [[1 / 2], [1 / 4]]"
  by (simp add: stop_returns callbacks_def callback_def demo_player_def demo_audio_def sf_read_def Let_def)

section \<open>The playlist sequencer\<close>

subsection \<open>List lookups\<close>

lemma py_index_absent: "p \<notin> set xs \<Longrightarrow> py_index xs p = Inl ValueError"
  by (induction xs) auto


lemma py_index_cases:
  "(py_index xs p = Inl ValueError \<and> p \<notin> set xs) \<or>
   (\<exists>i. py_index xs p = Inr (int i) \<and> i < length xs)"
proof (induction xs)
  case Nil
  show ?case by simp
next
  case (Cons x xs)
  then show ?case
  proof (cases "x = p")
    case True
    then have "py_index (x # xs) p = Inr (int 0) \<and> 0 < length (x # xs)" by simp
    then show ?thesis by blast
  next
    case False
    from Cons show ?thesis
    proof
      assume "py_index xs p = Inl ValueError \<and> p \<notin> set xs"
      with False show ?thesis by simp
    next
      assume "\<exists>i. py_index xs p = Inr (int i) \<and> i < length xs"
      then obtain i where "py_index xs p = Inr (int i)" "i < length xs" by blast
      with False have "py_index (x # xs) p = Inr (int (Suc i)) \<and> Suc i < length (x # xs)"
        by simp
      then show ?thesis by blast
    qed
  qed
qed

lemma next_index_defined:
  assumes "i < length xs"
  shows "\<exists>n. py_mod (int i + 1) (int (length xs)) = Inr (int n) \<and> n < length xs \<and>
             py_getitem xs (int n) = Inr (xs ! n) \<and> n = Suc i mod length xs"
proof -
  have pos: "0 < length xs" using assms by (cases xs) simp_all
  let ?n = "Suc i mod length xs"
  have m: "(int i + 1) mod int (length xs) = int ?n"
    by (simp add: zmod_int add.commute)
  have lt: "?n < length xs" using pos by simp
  have "py_mod (int i + 1) (int (length xs)) = Inr (int ?n)"
    using pos m by (simp add: py_mod_def)
  moreover have "py_getitem xs (int ?n) = Inr (xs ! ?n)"
    using lt by (simp add: py_getitem_def)
  ultimately show ?thesis using lt by blast
qed

subsection \<open>Starting a track\<close>



lemma Track_init_fresh:
  "Track_init fs p = Inr t0 \<Longrightarrow>
   path t0 = p \<and> stream (player t0) = None \<and> finished_callback (player t0) = None"
  by (auto simp: Track_init_def TrackPlayer_init_def SoundFile_open_def
      split: option.splits if_splits)

lemma Track_set_volume_eq:
  "Track_set_volume t v =
     (if float_overflows (real_of_int v / 100) then Raise OverflowError t
      else Return (t\<lparr>player := (player t)\<lparr>volume := np_clip (real_of_int v / 100) 0 1\<rparr>\<rparr>))"
  by (simp add: Track_set_volume_def set_volume_def)

text \<open>
  What the stop of the previous track, at the head of \<^verbatim>\<open>play_track\<close>, does to the
  window: it always returns, and it calls stop and close only on a stream that exists.
\<close>

lemma play_track_returns: "\<exists>s'. play_track fs s p = Return s'"
  by (simp add: play_track_def Track_stop_returns Track_set_volume_eq Let_def
      split: option.splits sum.splits)


lemma play_track_length:
  "length (objects s) \<le> length (objects (state_of (play_track fs s p)))"
  by (auto simp: play_track_def Track_stop_returns Track_set_volume_eq Let_def
      highlight_track_def update_play_buttons_def
      split: option.splits sum.splits)

lemma play_track_failure:
  "Track_init fs p = Inl e \<Longrightarrow>
   current_track (state_of (play_track fs s p)) = None \<and>
   printed (state_of (play_track fs s p)) = printed s @ [Failed_to_play p e] \<and>
   threads (state_of (play_track fs s p)) = threads s \<and>
   length (objects (state_of (play_track fs s p))) = length (objects s)"
  by (simp add: play_track_def Track_stop_returns split: option.splits)

lemma play_track_volume_failure:
  "Track_init fs p = Inr t0 \<Longrightarrow> float_overflows (real_of_int (current_volume s) / 100) \<Longrightarrow>
   current_track (state_of (play_track fs s p)) = None \<and>
   printed (state_of (play_track fs s p)) = printed s @ [Failed_to_play p OverflowError] \<and>
   threads (state_of (play_track fs s p)) = threads s \<and>
   length (objects (state_of (play_track fs s p))) = length (objects s)"
  by (simp add: play_track_def Track_stop_returns Track_set_volume_eq split: option.splits)

lemma play_track_success:
  "Track_init fs p = Inr t0 \<Longrightarrow> \<not> float_overflows (real_of_int (current_volume s) / 100) \<Longrightarrow>
   printed (state_of (play_track fs s p)) = printed s \<and>
   current_track (state_of (play_track fs s p)) = Some (length (objects s)) \<and>
   threads (state_of (play_track fs s p)) = threads s @ [length (objects s)] \<and>
   length (objects (state_of (play_track fs s p))) = Suc (length (objects s)) \<and>
   objects (state_of (play_track fs s p)) ! length (objects s) =
     t0\<lparr>player := (player t0)
           \<lparr>volume := np_clip (real_of_int (current_volume s) / 100) 0 1,
            finished_callback := Some (On_finished p)\<rparr>\<rparr>"
  by (simp add: play_track_def Track_stop_returns Track_set_volume_eq Let_def
      highlight_track_def update_play_buttons_def nth_append
      split: option.splits)

text \<open>What running a pending thread does: it creates and starts the stream of its track.\<close>

lemma run_play_thread_pending:
  assumes "a \<in> set (threads s)" and "a < length (objects s)"
  shows "objects (run_play_thread a s) =
           (objects s)[a := (objects s ! a)
              \<lparr>player := (player (objects s ! a))
                 \<lparr>stream := Some \<lparr>st_samplerate = samplerate (player (objects s ! a)),
                                  st_channels = channels (player (objects s ! a)),
                                  st_blocksize = 2048, st_active = True\<rparr>\<rparr>\<rparr>] \<and>
         audio_calls (run_play_thread a s) = audio_calls s @ [(path (objects s ! a), Stream_start)] \<and>
         threads (run_play_thread a s) = remove1 a (threads s) \<and>
         current_track (run_play_thread a s) = current_track s \<and>
         printed (run_play_thread a s) = printed s \<and>
         loop_mode (run_play_thread a s) = loop_mode s \<and>
         track_list (run_play_thread a s) = track_list s"
  using assms by (simp add: run_play_thread_def Track_play_def play_def)

lemma play_track_then_thread:
  assumes o: "Track_init fs p = Inr t0"
    and v: "\<not> float_overflows (real_of_int (current_volume s) / 100)"
  shows "map_option path (current_object (state_of (play_track fs s p))) = Some p \<and>
         current_object (run_play_thread (length (objects s)) (state_of (play_track fs s p))) =
           Some (t0\<lparr>player := (player t0)
                   \<lparr>volume := np_clip (real_of_int (current_volume s) / 100) 0 1,
                    finished_callback := Some (On_finished p),
                    stream := Some \<lparr>st_samplerate = samplerate (player t0),
                                     st_channels = channels (player t0),
                                     st_blocksize = 2048, st_active = True\<rparr>\<rparr>\<rparr>) \<and>
         audio_calls (run_play_thread (length (objects s)) (state_of (play_track fs s p))) =
           audio_calls (state_of (play_track fs s p)) @ [(p, Stream_start)]"
proof -
  let ?s = "state_of (play_track fs s p)"
  let ?a = "length (objects s)"
  note ps = play_track_success [OF o v]
  from ps have a: "?a \<in> set (threads ?s)" and l: "?a < length (objects ?s)" by simp_all
  from Track_init_fresh [OF o] have pt: "path t0 = p" by simp
  from ps pt have 1: "map_option path (current_object ?s) = Some p"
    by (simp add: current_object_def)
  note rt = run_play_thread_pending [OF a l]
  from rt ps l have 2: "current_object (run_play_thread ?a ?s) =
           Some (t0\<lparr>player := (player t0)
                   \<lparr>volume := np_clip (real_of_int (current_volume s) / 100) 0 1,
                    finished_callback := Some (On_finished p),
                    stream := Some \<lparr>st_samplerate = samplerate (player t0),
                                     st_channels = channels (player t0),
                                     st_blocksize = 2048, st_active = True\<rparr>\<rparr>\<rparr>)"
    by (simp add: current_object_def)
  from rt ps pt have 3: "audio_calls (run_play_thread ?a ?s) = audio_calls ?s @ [(p, Stream_start)]"
    by simp
  from 1 2 3 show ?thesis by blast
qed

lemma play_track_registers_callback:
  assumes "current_track (state_of (play_track fs s p)) = Some a"
  shows "finished_callback (player (objects (state_of (play_track fs s p)) ! a)) = Some (On_finished p) \<and>
         a \<in> set (threads (state_of (play_track fs s p))) \<and>
         (\<exists>t. current_object (run_play_thread a (state_of (play_track fs s p))) = Some t \<and>
              engine_running t \<and> notified (On_finished p) (run es (player t, [])))"
proof (cases "Track_init fs p")
  case (Inl e)
  with play_track_failure [OF Inl, of s] assms show ?thesis by simp
next
  case (Inr t0)
  show ?thesis
  proof (cases "float_overflows (real_of_int (current_volume s) / 100)")
    case True
    with play_track_volume_failure [OF Inr True] assms show ?thesis by simp
  next
    case False
    let ?s = "state_of (play_track fs s p)"
    note ps = play_track_success [OF Inr False]
    from ps assms have a: "a = length (objects s)" by simp
    from ps a have 1: "finished_callback (player (objects ?s ! a)) = Some (On_finished p)"
      and 2: "a \<in> set (threads ?s)" by simp_all
    from play_track_then_thread [OF Inr False] a obtain t where
      t: "current_object (run_play_thread a ?s) = Some t"
      and f: "finished_callback (player t) = Some (On_finished p)"
      and st: "\<exists>st. stream (player t) = Some st \<and> st_active st" by auto
    from st have r: "engine_running t" by (auto simp: engine_running_def)
    from f st have "notified (On_finished p) (player t, [])" by (auto simp: notified_def)
    then have "notified (On_finished p) (run es (player t, []))" by (rule run_notified)
    with 1 2 t r show ?thesis by blast
  qed
qed

subsection \<open>The demo window\<close>

lemma demo_opens:
  "p \<in> {''A'', ''B'', ''C''} \<Longrightarrow>
   Track_init demo_fs p =
     Inr \<lparr>path = p,
          player = \<lparr>sf = \<lparr>sf_data = [[1 / 2], [1 / 4], [- 1 / 2]], sf_samplerate = 2,
                           sf_channels = 1, sf_pos = 0, sf_closed = False\<rparr>,
                    samplerate = 2, channels = 1, stream = None,
                    volume = 1, paused = False, current_frame = 0, finished_callback = None\<rparr>,
          duration_seconds = 3 / 2\<rparr>"
  by (auto simp: Track_init_def TrackPlayer_init_def SoundFile_open_def sf_len_def
      demo_fs_def demo_audio_def)

lemma demo_volume: "\<not> float_overflows (real_of_int 100 / 100)"
  by (simp add: float_overflows_def)

lemma demo_started:
  assumes m: "p \<in> {''A'', ''B'', ''C''}"
  shows "state_of (play_track demo_fs (demo_window [''A'', ''B'', ''C'']) p) =
     \<lparr>objects =
        [\<lparr>path = p,
          player = \<lparr>sf = \<lparr>sf_data = [[1 / 2], [1 / 4], [- 1 / 2]], sf_samplerate = 2,
                           sf_channels = 1, sf_pos = 0, sf_closed = False\<rparr>,
                    samplerate = 2, channels = 1, stream = None,
                    volume = 1, paused = False, current_frame = 0,
                    finished_callback = Some (On_finished p)\<rparr>,
          duration_seconds = 3 / 2\<rparr>],
      current_track = Some 0, threads = [0],
      current_volume = 100, user_seeking = False,
      loop_mode = ''list'', track_list = [''A'', ''B'', ''C''],
      track_rows = map (\<lambda>q. (q, if q = p then Highlighted else Plain)) [''A'', ''B'', ''C''],
      play_buttons = map (\<lambda>q. (q, if q = p then Pause_glyph else Play_glyph)) [''A'', ''B'', ''C''],
      progress_value = 0, progress_enabled = True, time_label = ''00:00 / 00:00'',
      printed = [], audio_calls = []\<rparr>"
  using m demo_volume
  by (auto simp: play_track_def demo_opens [OF m] demo_window_def Track_set_volume_eq
      np_clip_def Let_def highlight_track_def update_play_buttons_def)

lemma demo_playing_eq:
  assumes m: "p \<in> {''A'', ''B'', ''C''}"
  shows "demo_playing p =
     \<lparr>objects =
        [\<lparr>path = p,
          player = \<lparr>sf = \<lparr>sf_data = [[1 / 2], [1 / 4], [- 1 / 2]], sf_samplerate = 2,
                           sf_channels = 1, sf_pos = 0, sf_closed = False\<rparr>,
                    samplerate = 2, channels = 1,
                    stream = Some \<lparr>st_samplerate = 2, st_channels = 1,
                                   st_blocksize = 2048, st_active = True\<rparr>,
                    volume = 1, paused = False, current_frame = 0,
                    finished_callback = Some (On_finished p)\<rparr>,
          duration_seconds = 3 / 2\<rparr>],
      current_track = Some 0, threads = [],
      current_volume = 100, user_seeking = False,
      loop_mode = ''list'', track_list = [''A'', ''B'', ''C''],
      track_rows = map (\<lambda>q. (q, if q = p then Highlighted else Plain)) [''A'', ''B'', ''C''],
      play_buttons = map (\<lambda>q. (q, if q = p then Pause_glyph else Play_glyph)) [''A'', ''B'', ''C''],
      progress_value = 0, progress_enabled = True, time_label = ''00:00 / 00:00'',
      printed = [], audio_calls = [(p, Stream_start)]\<rparr>"
  unfolding demo_playing_def demo_started [OF m]
  by (simp add: run_play_thread_def Track_play_def play_def)

lemma demo_playing_track:
  assumes m: "p \<in> {''A'', ''B'', ''C''}"
  shows "map_option path (current_object (demo_playing p)) = Some p \<and>
         map_option engine_running (current_object (demo_playing p)) = Some True \<and>
         threads (demo_playing p) = [] \<and>
         audio_calls (demo_playing p) = [(p, Stream_start)] \<and>
         printed (demo_playing p) = [] \<and>
         current_volume (demo_playing p) = 100 \<and>
         loop_mode (demo_playing p) = ''list'' \<and>
         track_list (demo_playing p) = [''A'', ''B'', ''C'']"
  unfolding demo_playing_eq [OF m] by (simp add: current_object_def engine_running_def)

subsection \<open>Two tracks started in a row\<close>

lemma play_track_keeps_pending:
  "set (threads s) \<subseteq> set (threads (state_of (play_track fs s p)))"
  by (auto simp: play_track_def Track_stop_returns Track_set_volume_eq Let_def
      highlight_track_def update_play_buttons_def
      split: option.splits sum.splits)

text \<open>
  Claim C7 fails on the code when a second \<^verbatim>\<open>play_track\<close> arrives while the thread
  started for the first track has not run yet. \<^verbatim>\<open>play_track\<close> always returns, reports a
  failed open once and leaves no track current then (\<open>play_track_returns\<close>,
  \<open>play_track_failure\<close>), and it stops and closes a previous stream that exists
  (\<open>play_track_audio_calls\<close>). But the previous track gets its stream only when its
  thread runs; until then \<^verbatim>\<open>stop()\<close> finds no stream and makes no call, and the pending
  thread stays pending (\<open>play_track_keeps_pending\<close>). In the demo window, \<open>A\<close> is
  started and then \<open>B\<close> before the thread of \<open>A\<close> has run: the second \<^verbatim>\<open>play_track\<close>
  makes no call on any stream, and once both threads have run, both streams have been
  started, neither has been stopped, two engines are running, and the window refers
  only to \<open>B\<close>.
\<close>

theorem pending_play_escapes_stop:
  "audio_calls (state_of (play_track demo_fs
       (state_of (play_track demo_fs (demo_window [''A'', ''B'', ''C'']) ''A'')) ''B'')) = [] \<and>
   threads (state_of (play_track demo_fs
       (state_of (play_track demo_fs (demo_window [''A'', ''B'', ''C'']) ''A'')) ''B'')) = [0, 1] \<and>
   audio_calls demo_double_start = [(''A'', Stream_start), (''B'', Stream_start)] \<and>
   running_engines demo_double_start = [''A'', ''B''] \<and>
   map_option path (current_object demo_double_start) = Some ''B''"
proof -
  have a: "''A'' \<in> {''A'', ''B'', ''C''}" and b: "''B'' \<in> {''A'', ''B'', ''C''}" by simp_all
  let ?s1 = "state_of (play_track demo_fs (demo_window [''A'', ''B'', ''C'']) ''A'')"
  let ?s2 = "state_of (play_track demo_fs ?s1 ''B'')"
  have s2: "objects ?s2 =
        [\<lparr>path = ''A'',
          player = \<lparr>sf = \<lparr>sf_data = [[1 / 2], [1 / 4], [- 1 / 2]], sf_samplerate = 2,
                           sf_channels = 1, sf_pos = 0, sf_closed = False\<rparr>,
                    samplerate = 2, channels = 1, stream = None,
                    volume = 1, paused = False, current_frame = 0,
                    finished_callback = Some (On_finished ''A'')\<rparr>,
          duration_seconds = 3 / 2\<rparr>,
         \<lparr>path = ''B'',
          player = \<lparr>sf = \<lparr>sf_data = [[1 / 2], [1 / 4], [- 1 / 2]], sf_samplerate = 2,
                           sf_channels = 1, sf_pos = 0, sf_closed = False\<rparr>,
                    samplerate = 2, channels = 1, stream = None,
                    volume = 1, paused = False, current_frame = 0,
                    finished_callback = Some (On_finished ''B'')\<rparr>,
          duration_seconds = 3 / 2\<rparr>] \<and>
      current_track ?s2 = Some 1 \<and> threads ?s2 = [0, 1] \<and> audio_calls ?s2 = []"
    unfolding demo_started [OF a] using demo_volume
    by (simp add: play_track_def demo_opens [OF b] Track_stop_returns Track_set_volume_eq
        np_clip_def Let_def highlight_track_def update_play_buttons_def)
  let ?s3 = "run_play_thread 0 ?s2"
  from s2 have s3: "objects ?s3 =
        [\<lparr>path = ''A'',
          player = \<lparr>sf = \<lparr>sf_data = [[1 / 2], [1 / 4], [- 1 / 2]], sf_samplerate = 2,
                           sf_channels = 1, sf_pos = 0, sf_closed = False\<rparr>,
                    samplerate = 2, channels = 1,
                    stream = Some \<lparr>st_samplerate = 2, st_channels = 1,
                                   st_blocksize = 2048, st_active = True\<rparr>,
                    volume = 1, paused = False, current_frame = 0,
                    finished_callback = Some (On_finished ''A'')\<rparr>,
          duration_seconds = 3 / 2\<rparr>,
         \<lparr>path = ''B'',
          player = \<lparr>sf = \<lparr>sf_data = [[1 / 2], [1 / 4], [- 1 / 2]], sf_samplerate = 2,
                           sf_channels = 1, sf_pos = 0, sf_closed = False\<rparr>,
                    samplerate = 2, channels = 1, stream = None,
                    volume = 1, paused = False, current_frame = 0,
                    finished_callback = Some (On_finished ''B'')\<rparr>,
          duration_seconds = 3 / 2\<rparr>] \<and>
      current_track ?s3 = Some 1 \<and> threads ?s3 = [1] \<and> audio_calls ?s3 = [(''A'', Stream_start)]"
    by (simp add: run_play_thread_def Track_play_def play_def)
  let ?s4 = "run_play_thread 1 ?s3"
  from s3 have s4: "objects ?s4 =
        [\<lparr>path = ''A'',
          player = \<lparr>sf = \<lparr>sf_data = [[1 / 2], [1 / 4], [- 1 / 2]], sf_samplerate = 2,
                           sf_channels = 1, sf_pos = 0, sf_closed = False\<rparr>,
                    samplerate = 2, channels = 1,
                    stream = Some \<lparr>st_samplerate = 2, st_channels = 1,
                                   st_blocksize = 2048, st_active = True\<rparr>,
                    volume = 1, paused = False, current_frame = 0,
                    finished_callback = Some (On_finished ''A'')\<rparr>,
          duration_seconds = 3 / 2\<rparr>,
         \<lparr>path = ''B'',
          player = \<lparr>sf = \<lparr>sf_data = [[1 / 2], [1 / 4], [- 1 / 2]], sf_samplerate = 2,
                           sf_channels = 1, sf_pos = 0, sf_closed = False\<rparr>,
                    samplerate = 2, channels = 1,
                    stream = Some \<lparr>st_samplerate = 2, st_channels = 1,
                                   st_blocksize = 2048, st_active = True\<rparr>,
                    volume = 1, paused = False, current_frame = 0,
                    finished_callback = Some (On_finished ''B'')\<rparr>,
          duration_seconds = 3 / 2\<rparr>] \<and>
      current_track ?s4 = Some 1 \<and> threads ?s4 = [] \<and>
      audio_calls ?s4 = [(''A'', Stream_start), (''B'', Stream_start)]"
    by (simp add: run_play_thread_def Track_play_def play_def)
  have d: "demo_double_start = ?s4" by (simp add: demo_double_start_def)
  from s4 have r: "running_engines ?s4 = [''A'', ''B'']"
    by (simp add: running_engines_def engine_running_def)
  from s4 have c: "map_option path (current_object ?s4) = Some ''B''"
    by (simp add: current_object_def)
  from s2 s4 r c show ?thesis unfolding d by simp
qed

subsection \<open>Completion of a track\<close>

lemma on_track_finished_absent:
  "loop_mode s = ''list'' \<Longrightarrow> p \<notin> set (track_list s) \<Longrightarrow> on_track_finished fs s p = Return s"
  by (simp add: on_track_finished_def py_index_absent except_ValueError_def)

lemma on_track_finished_present:
  assumes l: "loop_mode s = ''list''" and i: "py_index (track_list s) p = Inr (int i)"
    and lt: "i < length (track_list s)"
  shows "on_track_finished fs s p = play_track fs s (track_list s ! (Suc i mod length (track_list s)))"
proof -
  from next_index_defined [OF lt] obtain n where
    m: "py_mod (int i + 1) (int (length (track_list s))) = Inr (int n)" and
    g: "py_getitem (track_list s) (int n) = Inr (track_list s ! n)" and
    n: "n = Suc i mod length (track_list s)" by blast
  obtain s' where r: "play_track fs s (track_list s ! n) = Return s'"
    using play_track_returns by blast
  from l i m g r have "on_track_finished fs s p = Return s'"
    by (simp add: on_track_finished_def)
  with r n show ?thesis by simp
qed







text \<open>
  Claim C10. The completion handler never raises. Whenever the index lookup succeeds
  the list is non-empty, so \<open>(idx + 1) % len(track_list)\<close> has a non-zero divisor and
  yields a valid index; on an empty list, or one without the path, the lookup raises
  \<^verbatim>\<open>ValueError\<close>, which the handler catches, and in loop mode \<^verbatim>\<open>"list"\<close> the state is
  left unchanged.
\<close>

theorem on_track_finished_never_raises:
  "(\<exists>s'. on_track_finished fs s p = Return s') \<and>
   (case py_index (track_list s) p of
      Inl e \<Rightarrow> e = ValueError \<and> p \<notin> set (track_list s)
    | Inr idx \<Rightarrow>
        (\<exists>n q. py_mod (idx + 1) (int (length (track_list s))) = Inr n \<and>
               py_getitem (track_list s) n = Inr q)) \<and>
   (loop_mode s = ''list'' \<and> (track_list s = [] \<or> p \<notin> set (track_list s))
      \<longrightarrow> on_track_finished fs s p = Return s)"
proof -
  have noop: "on_track_finished fs s p = Return s"
    if "loop_mode s = ''list'' \<and> (track_list s = [] \<or> p \<notin> set (track_list s))"
  proof -
    from that have "p \<notin> set (track_list s)" by auto
    with that show ?thesis by (simp add: on_track_finished_absent)
  qed
  from py_index_cases [of "track_list s" p]
  have idx: "(case py_index (track_list s) p of
      Inl e \<Rightarrow> e = ValueError \<and> p \<notin> set (track_list s)
    | Inr idx \<Rightarrow>
        (\<exists>n q. py_mod (idx + 1) (int (length (track_list s))) = Inr n \<and>
               py_getitem (track_list s) n = Inr q))"
  proof
    assume "py_index (track_list s) p = Inl ValueError \<and> p \<notin> set (track_list s)"
    then show ?thesis by simp
  next
    assume "\<exists>i. py_index (track_list s) p = Inr (int i) \<and> i < length (track_list s)"
    then obtain i where i: "py_index (track_list s) p = Inr (int i)" "i < length (track_list s)"
      by blast
    from next_index_defined [OF i(2)] i(1) show ?thesis by auto
  qed
  have ret: "\<exists>s'. on_track_finished fs s p = Return s'"
  proof (cases "loop_mode s = ''song''")
    case True
    then show ?thesis using play_track_returns [of fs s p] by (simp add: on_track_finished_def)
  next
    case nsong: False
    show ?thesis
    proof (cases "loop_mode s = ''list''")
      case False
      with nsong show ?thesis by (simp add: on_track_finished_def)
    next
      case True
      from py_index_cases [of "track_list s" p] show ?thesis
      proof
        assume "py_index (track_list s) p = Inl ValueError \<and> p \<notin> set (track_list s)"
        with True show ?thesis by (simp add: on_track_finished_absent)
      next
        assume "\<exists>i. py_index (track_list s) p = Inr (int i) \<and> i < length (track_list s)"
        then obtain i where i: "py_index (track_list s) p = Inr (int i)" "i < length (track_list s)"
          by blast
        from on_track_finished_present [OF True i, of fs] play_track_returns show ?thesis by simp
      qed
    qed
  qed
  from ret idx noop show ?thesis by blast
qed

theorem on_track_finished_never_raises_witness:
  "on_track_finished demo_fs (demo_window []) ''A'' = Return (demo_window []) \<and>
   py_index ([] :: path list) ''A'' = Inl ValueError \<and>
   on_track_finished demo_fs (demo_window [''B'']) ''A'' = Return (demo_window [''B''])"
proof -
  have l: "loop_mode (demo_window []) = ''list'' \<and> track_list (demo_window []) = []"
    by (simp add: demo_window_def)
  have m: "loop_mode (demo_window [''B'']) = ''list'' \<and> ''A'' \<notin> set (track_list (demo_window [''B'']))"
    by (simp add: demo_window_def)
  from on_track_finished_never_raises [of demo_fs "demo_window []" "''A''"]
    on_track_finished_never_raises [of demo_fs "demo_window [''B'']" "''A''"] l m
  show ?thesis by simp
qed




end
